theory Spec2Isabelle
  imports Main "HOL-Library.AList" "HOL-Library.Sublist"
begin

section \<open>Data model of the rating controller\<close>

text \<open>
  The error kinds of the controller. The source throws \<open>GraphQLError\<close> values that carry
  an extension code; the constructors stand for the codes
  \<open>UNAUTHENTICATED\<close>, \<open>BAD_USER_INPUT\<close>, \<open>INVALID_ARGUMENT\<close> and \<open>NOT_FOUND\<close>.
  \<open>ConstraintViolation\<close> is raised by the rating-count ceiling check only, and
  \<open>InvariantViolation\<close> is a kind of the specification's taxonomy for which the controller
  has no throw site.
\<close>

datatype error =
    Unauthenticated
  | BadInput
  | InvalidArgument
  | ConstraintViolation
  | NotFound
  | InvariantViolation

text \<open>
  The fields shared by a rating document and a counter document (the offering a
  document is stamped with, and the metric). \<open>classId\<close> is an ObjectId in the source;
  \<open>year\<close> and the rating values are integers.
\<close>

record offering =
  classId :: nat
  courseId :: string
  year :: int
  semester :: string
  subject :: string
  courseNumber :: string
  classNumber :: string
  metricName :: string

text \<open>\<open>RatingData\<close> of the source: the offering, the metric and the submitted value.\<close>

record ratingData = offering +
  "value" :: int

text \<open>A document of \<open>RatingModel\<close>: the rating data, its author and its \<open>_id\<close>.\<close>

record rating = ratingData +
  createdBy :: string
  rid :: nat

text \<open>A document of \<open>AggregatedMetricsModel\<close>: one counter row.\<close>

record aggregatedMetric = offering +
  categoryValue :: int
  categoryCount :: int

section \<open>Metric domains\<close>

text \<open>
  \<open>METRIC_MAPPINGS\<close> is a configuration table of another package; it is a parameter
  here, as the list of its entries (metric name, \<open>isRating\<close>).
\<close>

type_synonym metricMappings = "(string \<times> bool) list"

definition numberScaleMetrics :: "metricMappings \<Rightarrow> string list" where
  "numberScaleMetrics M = map fst (filter (\<lambda>(metric, isRating). isRating) M)"

definition booleanScaleMetrics :: "metricMappings \<Rightarrow> string list" where
  "booleanScaleMetrics M = map fst (filter (\<lambda>(metric, isRating). \<not> isRating) M)"

section \<open>Counter store\<close>

text \<open>
  \<open>AggregatedMetricsModel.findOne({classId, metricName, categoryValue})\<close>: the first
  document of the collection that matches.
\<close>

definition isMetricFor :: "nat \<Rightarrow> string \<Rightarrow> int \<Rightarrow> aggregatedMetric \<Rightarrow> bool" where
  "isMetricFor cId mName cv m \<longleftrightarrow>
     classId m = cId \<and> metricName m = mName \<and> categoryValue m = cv"

definition findMetric ::
  "nat \<Rightarrow> string \<Rightarrow> int \<Rightarrow> aggregatedMetric list \<Rightarrow> aggregatedMetric option" where
  "findMetric cId mName cv ms = find (isMetricFor cId mName cv) ms"

text \<open>
  \<open>metric.categoryCount += delta; metric.save()\<close> on the document that \<open>findOne\<close>
  returned: the first matching document is rewritten in place.
\<close>

fun saveMetric ::
  "nat \<Rightarrow> string \<Rightarrow> int \<Rightarrow> int \<Rightarrow> aggregatedMetric list \<Rightarrow> aggregatedMetric list" where
  "saveMetric cId mName cv delta [] = []"
| "saveMetric cId mName cv delta (m # ms) =
     (if isMetricFor cId mName cv m
      then m\<lparr>categoryCount := categoryCount m + delta\<rparr> # ms
      else m # saveMetric cId mName cv delta ms)"

text \<open>The document literal passed to \<open>AggregatedMetricsModel.create\<close>.\<close>

definition newMetric ::
  "nat \<Rightarrow> string \<Rightarrow> int \<Rightarrow> string \<Rightarrow> string \<Rightarrow> string \<Rightarrow> string \<Rightarrow> string \<Rightarrow> int \<Rightarrow> int
     \<Rightarrow> aggregatedMetric" where
  "newMetric cId crsId yr sem subj cNum clsNum mName cv v =
     \<lparr>classId = cId, courseId = crsId, year = yr, semester = sem, subject = subj,
      courseNumber = cNum, classNumber = clsNum, metricName = mName,
      categoryValue = v, categoryCount = (if v = cv then 1 else 0)\<rparr>"

text \<open>The loop \<open>for (const v of valueRange)\<close>: one document is created per value.\<close>

fun createMetrics ::
  "nat \<Rightarrow> string \<Rightarrow> int \<Rightarrow> string \<Rightarrow> string \<Rightarrow> string \<Rightarrow> string \<Rightarrow> string \<Rightarrow> int \<Rightarrow> int list
     \<Rightarrow> aggregatedMetric list \<Rightarrow> aggregatedMetric list" where
  "createMetrics cId crsId yr sem subj cNum clsNum mName cv [] ms = ms"
| "createMetrics cId crsId yr sem subj cNum clsNum mName cv (v # vs) ms =
     createMetrics cId crsId yr sem subj cNum clsNum mName cv vs
       (ms @ [newMetric cId crsId yr sem subj cNum clsNum mName cv v])"

text \<open>
  \<open>handleCategoryCountChange\<close>. The result is the new collection, or the error thrown;
  the function runs inside a transaction only, which discards every write on an error.
\<close>

definition handleCategoryCountChange ::
  "metricMappings \<Rightarrow> nat \<Rightarrow> string \<Rightarrow> int \<Rightarrow> string \<Rightarrow> string \<Rightarrow> string \<Rightarrow> string \<Rightarrow> string
     \<Rightarrow> int \<Rightarrow> bool \<Rightarrow> aggregatedMetric list \<Rightarrow> error + aggregatedMetric list" where
  "handleCategoryCountChange M cId crsId yr sem subj cNum clsNum mName cv isIncrement ms =
     (let delta = (if isIncrement then 1 else - 1) in
      case findMetric cId mName cv ms of
        Some metric \<Rightarrow> Inr (saveMetric cId mName cv delta ms)
      | None \<Rightarrow>
          if isIncrement then
            (if mName \<in> set (numberScaleMetrics M) then
               Inr (createMetrics cId crsId yr sem subj cNum clsNum mName cv [1, 2, 3, 4, 5] ms)
             else if mName \<in> set (booleanScaleMetrics M) then
               Inr (createMetrics cId crsId yr sem subj cNum clsNum mName cv [0, 1] ms)
             else Inl InvalidArgument)
          else Inl NotFound)"

section \<open>Constraint checks\<close>

text \<open>
  Modelled from the spec: \<open>checkValueConstraint\<close> of \<open>helper/checkConstraints\<close>, which
  is not among the sources. It fails with \<open>InvalidArgument\<close> when the value is outside
  the metric's declared domain: the integers 1 to 5 for a rating-scale metric, 0 and 1 for
  a boolean metric. A metric without a declared domain has no value outside it.
\<close>

definition checkValueConstraint :: "metricMappings \<Rightarrow> string \<Rightarrow> int \<Rightarrow> error + unit" where
  "checkValueConstraint M mName v =
     (if mName \<in> set (numberScaleMetrics M) then
        (if 1 \<le> v \<and> v \<le> 5 then Inr () else Inl InvalidArgument)
      else if mName \<in> set (booleanScaleMetrics M) then
        (if v = 0 \<or> v = 1 then Inr () else Inl InvalidArgument)
      else Inr ())"

text \<open>
  Modelled from the spec: \<open>checkRatingExists\<close> of \<open>helper/checkConstraints\<close>, which is
  not among the sources. It returns the live rating of the user for
  (subject, courseNumber, metricName), or none.
\<close>

definition isRatingOf :: "string \<Rightarrow> string \<Rightarrow> string \<Rightarrow> string \<Rightarrow> rating \<Rightarrow> bool" where
  "isRatingOf uid subj cNum mName r \<longleftrightarrow>
     createdBy r = uid \<and> subject r = subj \<and> courseNumber r = cNum \<and> metricName r = mName"

definition checkRatingExists ::
  "string \<Rightarrow> string \<Rightarrow> string \<Rightarrow> string \<Rightarrow> rating list \<Rightarrow> rating option" where
  "checkRatingExists uid subj cNum mName rs = find (isRatingOf uid subj cNum mName) rs"

text \<open>
  Modelled from the spec: \<open>checkUserMaxRatingsConstraint\<close> of
  \<open>helper/checkConstraints\<close>, which is not among the sources. It fails with
  \<open>ConstraintViolation\<close> when the user has reached the ceiling of distinct rated courses,
  unless the new rating targets a course the user has rated already. The ceiling is a
  parameter.
\<close>

definition checkUserMaxRatingsConstraint ::
  "nat \<Rightarrow> rating list \<Rightarrow> int \<Rightarrow> string \<Rightarrow> string \<Rightarrow> string \<Rightarrow> error + unit" where
  "checkUserMaxRatingsConstraint ceiling userRatings yr sem subj cNum =
     (let rated = remdups (map (\<lambda>r. (subject r, courseNumber r)) userRatings) in
      if (subj, cNum) \<in> set rated then Inr ()
      else if ceiling \<le> length rated then Inl ConstraintViolation
      else Inr ())"

section \<open>Database and caches\<close>

text \<open>A document of \<open>ClassModel\<close>; \<open>class_id\<close> is its \<open>_id\<close>.\<close>

record classDoc =
  class_id :: nat
  class_courseId :: string
  class_year :: int
  class_semester :: string
  class_subject :: string
  class_courseNumber :: string
  class_number :: string

text \<open>A document of \<open>CourseModel\<close>; its \<open>courseId\<close> may be missing.\<close>

record courseDoc =
  course_subject :: string
  course_number :: string
  course_courseId :: "string option"

text \<open>
  The collections. \<open>nextId\<close> is the source of fresh \<open>_id\<close> values of rating
  documents.
\<close>

record database =
  ratings :: "rating list"
  metrics :: "aggregatedMetric list"
  nextId :: nat
  classes :: "classDoc list"
  courses :: "courseDoc list"

text \<open>
  \<open>CacheEntry\<close>: the cached value (\<open>value\<close> in the source) and its expiry time in
  milliseconds. A cache is a JavaScript \<open>Map\<close>: an association list in insertion order.
\<close>

record 'v cacheEntry =
  cvalue :: 'v
  expiresAt :: int

type_synonym 'v cache = "(string \<times> 'v cacheEntry) list"

text \<open>
  The effects whose order matters: the commit and the abort of a transaction, and the
  invalidation of the caches of a course.
\<close>

datatype event = Committed | Aborted | Invalidated string

text \<open>
  The state of the module: the database, the three module-level caches, the number of
  sessions started with \<open>connection.startSession()\<close>, and the events so far, the
  oldest first.
\<close>

record ('a, 'b, 'c) state =
  database :: database
  courseAggregatedRatingsCache :: "'a cache"
  semestersWithRatingsCache :: "'b cache"
  instructorAggregatedRatingsCache :: "'c cache"
  sessions :: nat
  events :: "event list"

definition COURSE_AGGREGATED_RATINGS_TTL_MS :: int where
  "COURSE_AGGREGATED_RATINGS_TTL_MS = 2 * 60 * 1000"

definition SEMESTER_RATINGS_TTL_MS :: int where
  "SEMESTER_RATINGS_TTL_MS = 5 * 60 * 1000"

definition INSTRUCTOR_RATINGS_TTL_MS :: int where
  "INSTRUCTOR_RATINGS_TTL_MS = 5 * 60 * 1000"

text \<open>
  \<open>getCachedValue\<close>, with the reading of \<open>Date.now()\<close> as its first argument. It
  returns the value (or none, for \<open>null\<close>) and the cache, which loses a stale entry.
\<close>

definition getCachedValue :: "int \<Rightarrow> 'v cache \<Rightarrow> string \<Rightarrow> 'v option \<times> 'v cache" where
  "getCachedValue now cache key =
     (case map_of cache key of
        None \<Rightarrow> (None, cache)
      | Some entry \<Rightarrow>
          if now > expiresAt entry then (None, AList.delete key cache)
          else (Some (cvalue entry), cache))"

definition setCachedValue :: "int \<Rightarrow> 'v cache \<Rightarrow> string \<Rightarrow> 'v \<Rightarrow> int \<Rightarrow> 'v cache" where
  "setCachedValue now cache key v ttlMs =
     AList.update key \<lparr>cvalue = v, expiresAt = now + ttlMs\<rparr> cache"

definition sweepExpiredEntries :: "int \<Rightarrow> 'v cache \<Rightarrow> 'v cache" where
  "sweepExpiredEntries now cache = filter (\<lambda>(key, entry). \<not> now > expiresAt entry) cache"

text \<open>
  \<open>getMetricNamesKey\<close>: the names sorted by \<open>localeCompare\<close> and joined with commas.
  The collation order is a parameter \<open>le\<close>; the sort is a stable insertion sort.
\<close>

fun insertBy :: "('x \<Rightarrow> 'x \<Rightarrow> bool) \<Rightarrow> 'x \<Rightarrow> 'x list \<Rightarrow> 'x list" where
  "insertBy le x [] = [x]"
| "insertBy le x (y # ys) = (if le x y then x # y # ys else y # insertBy le x ys)"

definition sortBy :: "('x \<Rightarrow> 'x \<Rightarrow> bool) \<Rightarrow> 'x list \<Rightarrow> 'x list" where
  "sortBy le xs = foldr (insertBy le) xs []"

fun joinWith :: "string \<Rightarrow> string list \<Rightarrow> string" where
  "joinWith sep [] = []"
| "joinWith sep [x] = x"
| "joinWith sep (x # y # ys) = x @ sep @ joinWith sep (y # ys)"

definition getMetricNamesKey ::
  "(string \<Rightarrow> string \<Rightarrow> bool) \<Rightarrow> string list option \<Rightarrow> string" where
  "getMetricNamesKey le metricNames =
     (case metricNames of
        None \<Rightarrow> ''all''
      | Some names \<Rightarrow> if names = [] then ''all'' else joinWith '','' (sortBy le names))"

text \<open>
  \<open>invalidateRatingsCaches\<close>: every key of the course cache that starts with the
  course id and a colon is deleted, and the key of the course in the two other caches.
\<close>

definition invalidateRatingsCaches :: "string \<Rightarrow> ('a, 'b, 'c) state \<Rightarrow> ('a, 'b, 'c) state" where
  "invalidateRatingsCaches crsId s =
     (let courseKeyPrefix = crsId @ '':'' in
      s\<lparr>courseAggregatedRatingsCache :=
           filter (\<lambda>(cacheKey, entry). \<not> prefix courseKeyPrefix cacheKey)
             (courseAggregatedRatingsCache s),
        semestersWithRatingsCache := AList.delete crsId (semestersWithRatingsCache s),
        instructorAggregatedRatingsCache :=
           AList.delete crsId (instructorAggregatedRatingsCache s),
        events := events s @ [Invalidated crsId]\<rparr>)"

section \<open>Lookups\<close>

definition getClassDocument ::
  "int \<Rightarrow> string \<Rightarrow> string \<Rightarrow> string \<Rightarrow> string \<Rightarrow> classDoc list \<Rightarrow> error + classDoc" where
  "getClassDocument yr sem subj cNum clsNum cs =
     (case find (\<lambda>c. class_year c = yr \<and> class_semester c = sem \<and> class_subject c = subj \<and>
                      class_courseNumber c = cNum \<and> class_number c = clsNum) cs of
        None \<Rightarrow> Inl NotFound
      | Some classDoc \<Rightarrow> Inr classDoc)"

definition getCourseId :: "string \<Rightarrow> string \<Rightarrow> courseDoc list \<Rightarrow> string option" where
  "getCourseId subj cNum cs =
     (case find (\<lambda>c. course_subject c = subj \<and> course_number c = cNum) cs of
        None \<Rightarrow> None
      | Some course \<Rightarrow> course_courseId course)"

text \<open>
  \<open>getUserRatings\<close>. The aggregation pipeline and the formatter it calls are not among
  the sources; the result is modelled from the spec as the rating documents of the user.
\<close>

definition getUserRatings :: "string \<Rightarrow> rating list \<Rightarrow> error + rating list" where
  "getUserRatings uid rs =
     (if uid = [] then Inl Unauthenticated else Inr (filter (\<lambda>r. createdBy r = uid) rs))"

section \<open>Sessions and transactions\<close>

definition startSession :: "('a, 'b, 'c) state \<Rightarrow> ('a, 'b, 'c) state" where
  "startSession s = s\<lparr>sessions := sessions s + 1\<rparr>"

text \<open>
  \<open>session.withTransaction\<close>: when the callback returns, the transaction commits; when
  it throws, the writes to the database are discarded and the error is thrown again. The
  caches are module-level maps in memory and keep what the callback did to them.
\<close>

definition withTransaction ::
  "(('a, 'b, 'c) state \<Rightarrow> (error + 'r) \<times> ('a, 'b, 'c) state) \<Rightarrow> ('a, 'b, 'c) state
     \<Rightarrow> (error + 'r) \<times> ('a, 'b, 'c) state" where
  "withTransaction body s =
     (case body s of
        (Inl e, s') \<Rightarrow> (Inl e, s'\<lparr>database := database s, events := events s' @ [Aborted]\<rparr>)
      | (Inr x, s') \<Rightarrow> (Inr x, s'\<lparr>events := events s' @ [Committed]\<rparr>))"

text \<open>A step of a transaction that touches the database only.\<close>

definition inSession ::
  "(database \<Rightarrow> error + database) \<Rightarrow> ('a, 'b, 'c) state \<Rightarrow> (error + unit) \<times> ('a, 'b, 'c) state" where
  "inSession f s =
     (case f (database s) of
        Inl e \<Rightarrow> (Inl e, s)
      | Inr db' \<Rightarrow> (Inr (), s\<lparr>database := db'\<rparr>))"

section \<open>Rating store\<close>

text \<open>\<open>RatingModel.deleteOne({_id})\<close> and \<open>RatingModel.updateOne({_id}, {value})\<close>.\<close>

fun deleteOne :: "nat \<Rightarrow> rating list \<Rightarrow> rating list" where
  "deleteOne i [] = []"
| "deleteOne i (r # rs) = (if rid r = i then rs else r # deleteOne i rs)"

fun updateOne :: "nat \<Rightarrow> int \<Rightarrow> rating list \<Rightarrow> rating list" where
  "updateOne i v [] = []"
| "updateOne i v (r # rs) = (if rid r = i then r\<lparr>value := v\<rparr> # rs else r # updateOne i v rs)"

text \<open>The document that \<open>RatingModel.create\<close> stores: the rating data and the author.\<close>

definition newRating :: "string \<Rightarrow> ratingData \<Rightarrow> nat \<Rightarrow> rating" where
  "newRating uid rd i =
     \<lparr>classId = classId rd, courseId = courseId rd, year = year rd, semester = semester rd,
      subject = subject rd, courseNumber = courseNumber rd, classNumber = classNumber rd,
      metricName = metricName rd, value = value rd, createdBy = uid, rid = i\<rparr>"

definition createNewRating ::
  "metricMappings \<Rightarrow> string \<Rightarrow> ratingData \<Rightarrow> database \<Rightarrow> error + database" where
  "createNewRating M uid rd db =
     (case handleCategoryCountChange M (classId rd) (courseId rd) (year rd) (semester rd)
             (subject rd) (courseNumber rd) (classNumber rd) (metricName rd) (value rd) True
             (metrics db) of
        Inl e \<Rightarrow> Inl e
      | Inr ms \<Rightarrow>
          Inr (db\<lparr>ratings := ratings db @ [newRating uid rd (nextId db)],
                  metrics := ms, nextId := nextId db + 1\<rparr>))"

definition handleExistingRating ::
  "metricMappings \<Rightarrow> rating \<Rightarrow> int \<Rightarrow> database \<Rightarrow> error + database" where
  "handleExistingRating M existingRating newValue db =
     (let oldValue = value existingRating in
      if oldValue = newValue then Inr db
      else
        (let rs = updateOne (rid existingRating) newValue (ratings db) in
         case handleCategoryCountChange M (classId existingRating) (courseId existingRating)
                (year existingRating) (semester existingRating) (subject existingRating)
                (courseNumber existingRating) (classNumber existingRating)
                (metricName existingRating) oldValue False (metrics db) of
           Inl e \<Rightarrow> Inl e
         | Inr ms \<Rightarrow>
             (case handleCategoryCountChange M (classId existingRating)
                     (courseId existingRating) (year existingRating) (semester existingRating)
                     (subject existingRating) (courseNumber existingRating)
                     (classNumber existingRating) (metricName existingRating) newValue True ms of
                Inl e \<Rightarrow> Inl e
              | Inr ms' \<Rightarrow> Inr (db\<lparr>ratings := rs, metrics := ms'\<rparr>))))"

definition deleteRatingOperations ::
  "metricMappings \<Rightarrow> string \<Rightarrow> int \<Rightarrow> string \<Rightarrow> string \<Rightarrow> string \<Rightarrow> string \<Rightarrow> string
     \<Rightarrow> database \<Rightarrow> error + rating \<times> database" where
  "deleteRatingOperations M uid yr sem subj cNum clsNum mName db =
     (case find (\<lambda>r. createdBy r = uid \<and> subject r = subj \<and> courseNumber r = cNum \<and>
                      semester r = sem \<and> year r = yr \<and> classNumber r = clsNum \<and>
                      metricName r = mName) (ratings db) of
        None \<Rightarrow> Inl NotFound
      | Some r \<Rightarrow>
          (case handleCategoryCountChange M (classId r) (courseId r) yr sem subj cNum clsNum
                  mName (value r) False (metrics db) of
             Inl e \<Rightarrow> Inl e
           | Inr ms \<Rightarrow> Inr (r, db\<lparr>ratings := deleteOne (rid r) (ratings db), metrics := ms\<rparr>)))"

text \<open>
  \<open>deleteRating\<close>. With \<open>existingSession\<close> the operations run in the caller's
  transaction; without it the function starts its own. In both cases the caches of the
  deleted rating's course are invalidated before the function returns.
\<close>

definition deleteRating ::
  "metricMappings \<Rightarrow> string \<Rightarrow> int \<Rightarrow> string \<Rightarrow> string \<Rightarrow> string \<Rightarrow> string \<Rightarrow> string \<Rightarrow> bool
     \<Rightarrow> ('a, 'b, 'c) state \<Rightarrow> (error + bool) \<times> ('a, 'b, 'c) state" where
  "deleteRating M uid yr sem subj cNum clsNum mName existingSession s =
     (if uid = [] then (Inl Unauthenticated, s)
      else
        (let ops = (\<lambda>t. case deleteRatingOperations M uid yr sem subj cNum clsNum mName
                                (database t) of
                          Inl e \<Rightarrow> (Inl e, t)
                        | Inr (deletedRating, db') \<Rightarrow>
                            (Inr (courseId deletedRating), t\<lparr>database := db'\<rparr>))
         in case (if existingSession then ops s else withTransaction ops (startSession s)) of
              (Inl e, s') \<Rightarrow> (Inl e, s')
            | (Inr deletedCourseId, s') \<Rightarrow>
                (Inr True,
                 if deletedCourseId \<noteq> [] then invalidateRatingsCaches deletedCourseId s'
                 else s')))"

text \<open>The callback that \<open>createRating\<close> runs in its transaction.\<close>

definition createRatingBody ::
  "metricMappings \<Rightarrow> string \<Rightarrow> ratingData \<Rightarrow> ('a, 'b, 'c) state
     \<Rightarrow> (error + unit) \<times> ('a, 'b, 'c) state" where
  "createRatingBody M uid rd s =
     (case checkRatingExists uid (subject rd) (courseNumber rd) (metricName rd)
             (ratings (database s)) of
        None \<Rightarrow> inSession (createNewRating M uid rd) s
      | Some existingRating \<Rightarrow>
          if semester existingRating \<noteq> semester rd \<or> year existingRating \<noteq> year rd \<or>
             classNumber existingRating \<noteq> classNumber rd
          then
            (case deleteRating M uid (year existingRating) (semester existingRating)
                    (subject existingRating) (courseNumber existingRating)
                    (classNumber existingRating) (metricName existingRating) True s of
               (Inl e, s') \<Rightarrow> (Inl e, s')
             | (Inr ok, s') \<Rightarrow> inSession (createNewRating M uid rd) s')
          else inSession (handleExistingRating M existingRating (value rd)) s)"

definition createRating ::
  "metricMappings \<Rightarrow> nat \<Rightarrow> string \<Rightarrow> int \<Rightarrow> string \<Rightarrow> string \<Rightarrow> string \<Rightarrow> string \<Rightarrow> string
     \<Rightarrow> int \<Rightarrow> ('a, 'b, 'c) state \<Rightarrow> (error + bool) \<times> ('a, 'b, 'c) state" where
  "createRating M ceiling uid yr sem subj cNum clsNum mName v s =
     (if uid = [] then (Inl Unauthenticated, s)
      else case checkValueConstraint M mName v of
        Inl e \<Rightarrow> (Inl e, s)
      | Inr ok \<Rightarrow>
     (case getClassDocument yr sem subj cNum clsNum (classes (database s)) of
        Inl e \<Rightarrow> (Inl e, s)
      | Inr classDoc \<Rightarrow>
     (case getUserRatings uid (ratings (database s)) of
        Inl e \<Rightarrow> (Inl e, s)
      | Inr userRatings \<Rightarrow>
     (case checkUserMaxRatingsConstraint ceiling userRatings yr sem subj cNum of
        Inl e \<Rightarrow> (Inl e, s)
      | Inr ok' \<Rightarrow>
     (let rd = \<lparr>classId = class_id classDoc, courseId = class_courseId classDoc, year = yr,
                semester = sem, subject = subj, courseNumber = cNum, classNumber = clsNum,
                metricName = mName, value = v\<rparr>
      in case withTransaction (createRatingBody M uid rd) (startSession s) of
           (Inl e, s') \<Rightarrow> (Inl e, s')
         | (Inr done, s') \<Rightarrow>
             (Inr True, invalidateRatingsCaches (class_courseId classDoc) s'))))))"

section \<open>Batch operations\<close>

text \<open>
  The loop over \<open>existingRatings\<close> of \<open>createRatings\<close> and \<open>deleteRatings\<close>: each
  rating is deleted by its \<open>_id\<close> and its counter is decremented.
\<close>

fun deleteExistingRatings :: "metricMappings \<Rightarrow> rating list \<Rightarrow> database \<Rightarrow> error + database" where
  "deleteExistingRatings M [] db = Inr db"
| "deleteExistingRatings M (existingRating # rest) db =
     (case handleCategoryCountChange M (classId existingRating) (courseId existingRating)
             (year existingRating) (semester existingRating) (subject existingRating)
             (courseNumber existingRating) (classNumber existingRating)
             (metricName existingRating) (value existingRating) False (metrics db) of
        Inl e \<Rightarrow> Inl e
      | Inr ms \<Rightarrow>
          deleteExistingRatings M rest
            (db\<lparr>ratings := deleteOne (rid existingRating) (ratings db), metrics := ms\<rparr>))"

text \<open>
  The loop over the submitted metrics of \<open>createRatings\<close>: a rating is created and its
  counter incremented, which is what \<open>createNewRating\<close> does for one metric.
\<close>

fun createMetricRatings ::
  "metricMappings \<Rightarrow> string \<Rightarrow> classDoc \<Rightarrow> int \<Rightarrow> string \<Rightarrow> string \<Rightarrow> string \<Rightarrow> string
     \<Rightarrow> (string \<times> int) list \<Rightarrow> database \<Rightarrow> error + database" where
  "createMetricRatings M uid classDoc yr sem subj cNum clsNum [] db = Inr db"
| "createMetricRatings M uid classDoc yr sem subj cNum clsNum ((mName, v) # rest) db =
     (case createNewRating M uid
             \<lparr>classId = class_id classDoc, courseId = class_courseId classDoc, year = yr,
              semester = sem, subject = subj, courseNumber = cNum, classNumber = clsNum,
              metricName = mName, value = v\<rparr> db of
        Inl e \<Rightarrow> Inl e
      | Inr db' \<Rightarrow> createMetricRatings M uid classDoc yr sem subj cNum clsNum rest db')"

fun checkValueConstraints :: "metricMappings \<Rightarrow> (string \<times> int) list \<Rightarrow> error + unit" where
  "checkValueConstraints M [] = Inr ()"
| "checkValueConstraints M ((mName, v) # rest) =
     (case checkValueConstraint M mName v of
        Inl e \<Rightarrow> Inl e
      | Inr ok \<Rightarrow> checkValueConstraints M rest)"

text \<open>
  \<open>createRatings\<close>; \<open>REQUIRED_METRICS\<close> is a configuration constant of another
  package and a parameter here.
\<close>

definition createRatings ::
  "metricMappings \<Rightarrow> string list \<Rightarrow> nat \<Rightarrow> string \<Rightarrow> int \<Rightarrow> string \<Rightarrow> string \<Rightarrow> string \<Rightarrow> string
     \<Rightarrow> (string \<times> int) list \<Rightarrow> ('a, 'b, 'c) state \<Rightarrow> (error + bool) \<times> ('a, 'b, 'c) state" where
  "createRatings M REQUIRED_METRICS ceiling uid yr sem subj cNum clsNum metricInputs s =
     (if uid = [] then (Inl Unauthenticated, s)
      else if filter (\<lambda>m. m \<notin> set (map fst metricInputs)) REQUIRED_METRICS \<noteq> []
        then (Inl BadInput, s)
      else case checkValueConstraints M metricInputs of
        Inl e \<Rightarrow> (Inl e, s)
      | Inr ok \<Rightarrow>
     (case getClassDocument yr sem subj cNum clsNum (classes (database s)) of
        Inl e \<Rightarrow> (Inl e, s)
      | Inr classDoc \<Rightarrow>
     (case getUserRatings uid (ratings (database s)) of
        Inl e \<Rightarrow> (Inl e, s)
      | Inr userRatings \<Rightarrow>
     (case checkUserMaxRatingsConstraint ceiling userRatings yr sem subj cNum of
        Inl e \<Rightarrow> (Inl e, s)
      | Inr ok' \<Rightarrow>
     (let existingRatings =
            filter (\<lambda>r. createdBy r = uid \<and> courseId r = class_courseId classDoc)
              (ratings (database s))
      in case withTransaction
                (inSession (\<lambda>db.
                   case deleteExistingRatings M existingRatings db of
                     Inl e \<Rightarrow> Inl e
                   | Inr db' \<Rightarrow>
                       createMetricRatings M uid classDoc yr sem subj cNum clsNum
                         metricInputs db'))
                (startSession s) of
           (Inl e, s') \<Rightarrow> (Inl e, s')
         | (Inr done, s') \<Rightarrow>
             (Inr True, invalidateRatingsCaches (class_courseId classDoc) s'))))))"

text \<open>
  \<open>deleteRatings\<close>. The set of affected course ids keeps the order of first insertion
  and drops empty ids.
\<close>

definition deleteRatings ::
  "metricMappings \<Rightarrow> string \<Rightarrow> string \<Rightarrow> string \<Rightarrow> ('a, 'b, 'c) state
     \<Rightarrow> (error + bool) \<times> ('a, 'b, 'c) state" where
  "deleteRatings M uid subj cNum s =
     (if uid = [] then (Inl Unauthenticated, s)
      else
        (let existingRatings =
               filter (\<lambda>r. createdBy r = uid \<and> subject r = subj \<and> courseNumber r = cNum)
                 (ratings (database s));
             affectedCourseIds =
               rev (remdups (rev (filter (\<lambda>c. c \<noteq> []) (map courseId existingRatings))))
         in if existingRatings = [] then (Inr True, s)
            else
              (case withTransaction (inSession (deleteExistingRatings M existingRatings))
                      (startSession s) of
                 (Inl e, s') \<Rightarrow> (Inl e, s')
               | (Inr done, s') \<Rightarrow> (Inr True, fold invalidateRatingsCaches affectedCourseIds s'))))"

text \<open>
  The two halves of \<open>deleteRatings\<close>. The ratings to delete are read before the session
  is started, outside the transaction; \<open>findExistingRatings\<close> is that read. The rest of the
  call works on the list that was read: \<open>deleteRatingsAfterRead\<close> is \<open>deleteRatings\<close>
  from the computation of the affected course ids to its end. A second call whose read
  came before the commit of a first call runs this second half on the state that the
  first call left.
\<close>

definition findExistingRatings ::
  "string \<Rightarrow> string \<Rightarrow> string \<Rightarrow> ('a, 'b, 'c) state \<Rightarrow> rating list" where
  "findExistingRatings uid subj cNum s =
     filter (\<lambda>r. createdBy r = uid \<and> subject r = subj \<and> courseNumber r = cNum)
       (ratings (database s))"

definition deleteRatingsAfterRead ::
  "metricMappings \<Rightarrow> rating list \<Rightarrow> ('a, 'b, 'c) state \<Rightarrow> (error + bool) \<times> ('a, 'b, 'c) state" where
  "deleteRatingsAfterRead M existingRatings s =
     (let affectedCourseIds =
            rev (remdups (rev (filter (\<lambda>c. c \<noteq> []) (map courseId existingRatings))))
      in if existingRatings = [] then (Inr True, s)
         else
           (case withTransaction (inSession (deleteExistingRatings M existingRatings))
                   (startSession s) of
              (Inl e, s') \<Rightarrow> (Inl e, s')
            | (Inr done, s') \<Rightarrow> (Inr True, fold invalidateRatingsCaches affectedCourseIds s')))"

section \<open>Cached read of the course aggregate\<close>

text \<open>
  The formatted aggregate that the course cache holds. Its metric entries are produced by
  a formatter that is not among the sources: an entry is its metric name and a payload.
\<close>

record 'p formattedRatings =
  agg_subject :: string
  agg_courseNumber :: string
  agg_semester :: "string option"
  agg_year :: "int option"
  agg_classNumber :: "string option"
  agg_metrics :: "(string \<times> 'p) list"

definition filterAggregatedMetrics ::
  "'p formattedRatings \<Rightarrow> string list option \<Rightarrow> 'p formattedRatings" where
  "filterAggregatedMetrics aggregated metricNames =
     (case metricNames of
        None \<Rightarrow> aggregated
      | Some names \<Rightarrow>
          if names = [] then aggregated
          else aggregated\<lparr>agg_metrics :=
                 filter (\<lambda>metric. fst metric \<in> set names) (agg_metrics aggregated)\<rparr>)"

definition emptyAggregate :: "string \<Rightarrow> string \<Rightarrow> 'p formattedRatings" where
  "emptyAggregate subj cNum =
     \<lparr>agg_subject = subj, agg_courseNumber = cNum, agg_semester = None, agg_year = None,
      agg_classNumber = None, agg_metrics = []\<rparr>"

text \<open>
  \<open>getCourseAggregatedRatings\<close>. The aggregation pipeline \<open>courseRatingAggregator\<close> and
  the formatter \<open>formatAggregatedRatings\<close> are parameters, and so is the collation order
  of the metric names. \<open>now\<close> is the clock when the cache is read and \<open>now'\<close> the clock
  when the fresh result is stored.
\<close>

definition getCourseAggregatedRatings ::
  "(database \<Rightarrow> string \<Rightarrow> 'raw list) \<Rightarrow> ('raw \<Rightarrow> 'p formattedRatings)
     \<Rightarrow> (string \<Rightarrow> string \<Rightarrow> bool) \<Rightarrow> int \<Rightarrow> int \<Rightarrow> string \<Rightarrow> string \<Rightarrow> string list option
     \<Rightarrow> ('p formattedRatings, 'b, 'c) state
     \<Rightarrow> 'p formattedRatings \<times> ('p formattedRatings, 'b, 'c) state" where
  "getCourseAggregatedRatings courseRatingAggregator formatAggregatedRatings le now now'
       subj cNum metricNames s =
     (case getCourseId subj cNum (courses (database s)) of
        None \<Rightarrow> (emptyAggregate subj cNum, s)
      | Some crsId \<Rightarrow>
          if crsId = [] then (emptyAggregate subj cNum, s)
          else
            (let cacheKey = crsId @ '':'' @ getMetricNamesKey le metricNames in
             case getCachedValue now (courseAggregatedRatingsCache s) cacheKey of
               (Some cached, cache') \<Rightarrow> (cached, s\<lparr>courseAggregatedRatingsCache := cache'\<rparr>)
             | (None, cache') \<Rightarrow>
                 (let result =
                        (case courseRatingAggregator (database s) crsId of
                           [] \<Rightarrow> emptyAggregate subj cNum
                         | aggregated # others \<Rightarrow>
                             filterAggregatedMetrics (formatAggregatedRatings aggregated)
                               metricNames)
                  in (result,
                      s\<lparr>courseAggregatedRatingsCache :=
                          setCachedValue now' cache' cacheKey result
                            COURSE_AGGREGATED_RATINGS_TTL_MS\<rparr>))))"

section \<open>Reading a counter\<close>

text \<open>
  The count that a read of the counter store finds for a key: the count of the first
  matching row, and 0 when the key has no row.
\<close>

definition countOf :: "nat \<Rightarrow> string \<Rightarrow> int \<Rightarrow> aggregatedMetric list \<Rightarrow> int" where
  "countOf cId mName cv ms =
     (case findMetric cId mName cv ms of None \<Rightarrow> 0 | Some m \<Rightarrow> categoryCount m)"

section \<open>Consistency of ratings and counters\<close>

text \<open>
  The number of live ratings of a counter key, and the consistency of a database: the ids
  of the ratings are distinct and below the next fresh id, no count is negative, and the
  counter read for every key is the number of live ratings with that class id, metric and
  value.
\<close>

definition hasKey :: "nat \<Rightarrow> string \<Rightarrow> int \<Rightarrow> rating \<Rightarrow> bool" where
  "hasKey cId mName cv r \<longleftrightarrow> classId r = cId \<and> metricName r = mName \<and> value r = cv"

definition liveRatings :: "nat \<Rightarrow> string \<Rightarrow> int \<Rightarrow> rating list \<Rightarrow> int" where
  "liveRatings cId mName cv rs = int (length (filter (hasKey cId mName cv) rs))"

definition consistent :: "database \<Rightarrow> bool" where
  "consistent db \<longleftrightarrow>
     distinct (map rid (ratings db)) \<and>
     (\<forall>r \<in> set (ratings db). rid r < nextId db) \<and>
     (\<forall>m \<in> set (metrics db). 0 \<le> categoryCount m) \<and>
     (\<forall>cId mName cv. countOf cId mName cv (metrics db) = liveRatings cId mName cv (ratings db))"

section \<open>Sample data\<close>

text \<open>
  A small instance: one course with two offerings (Fall 2023 and Spring 2024), one user
  with one rating of value 3 in the Fall offering, the counter row of that rating, and one
  entry in each cache. The metric of the rating is a parameter; the table of metrics
  declares \<open>Usefulness\<close> as a rating-scale metric and \<open>Recording\<close> as a boolean one.
\<close>

definition sampleMappings :: metricMappings where
  "sampleMappings = [(''Usefulness'', True), (''Recording'', False)]"

definition sampleClasses :: "classDoc list" where
  "sampleClasses =
     [\<lparr>class_id = 1, class_courseId = ''c1'', class_year = 2023, class_semester = ''Fall'',
       class_subject = ''COMPSCI'', class_courseNumber = ''61A'', class_number = ''001''\<rparr>,
      \<lparr>class_id = 2, class_courseId = ''c1'', class_year = 2024, class_semester = ''Spring'',
       class_subject = ''COMPSCI'', class_courseNumber = ''61A'', class_number = ''001''\<rparr>]"

definition sampleRating :: "string \<Rightarrow> rating" where
  "sampleRating mName =
     \<lparr>classId = 1, courseId = ''c1'', year = 2023, semester = ''Fall'', subject = ''COMPSCI'',
      courseNumber = ''61A'', classNumber = ''001'', metricName = mName, value = 3,
      createdBy = ''u1'', rid = 0\<rparr>"

definition sampleCounter :: "string \<Rightarrow> aggregatedMetric" where
  "sampleCounter mName =
     \<lparr>classId = 1, courseId = ''c1'', year = 2023, semester = ''Fall'', subject = ''COMPSCI'',
      courseNumber = ''61A'', classNumber = ''001'', metricName = mName,
      categoryValue = 3, categoryCount = 1\<rparr>"

definition sampleDatabase :: "string \<Rightarrow> database" where
  "sampleDatabase mName =
     \<lparr>ratings = [sampleRating mName], metrics = [sampleCounter mName], nextId = 1,
      classes = sampleClasses,
      courses = [\<lparr>course_subject = ''COMPSCI'', course_number = ''61A'',
                  course_courseId = Some ''c1''\<rparr>]\<rparr>"

definition sampleState :: "string \<Rightarrow> (nat, nat, nat) state" where
  "sampleState mName =
     \<lparr>database = sampleDatabase mName,
      courseAggregatedRatingsCache = [(''c1:all'', \<lparr>cvalue = 10, expiresAt = 120000\<rparr>)],
      semestersWithRatingsCache = [(''c1'', \<lparr>cvalue = 20, expiresAt = 300000\<rparr>)],
      instructorAggregatedRatingsCache = [(''c1'', \<lparr>cvalue = 30, expiresAt = 300000\<rparr>)],
      sessions = 0, events = []\<rparr>"




lemmas sample_defs = sampleMappings_def sampleClasses_def sampleRating_def sampleCounter_def
  sampleDatabase_def sampleState_def

lemmas controller_defs = createRating_def createRatingBody_def deleteRating_def
  deleteRatingOperations_def createNewRating_def handleExistingRating_def
  handleCategoryCountChange_def findMetric_def isMetricFor_def checkValueConstraint_def
  checkRatingExists_def isRatingOf_def checkUserMaxRatingsConstraint_def getClassDocument_def
  getUserRatings_def withTransaction_def inSession_def startSession_def
  invalidateRatingsCaches_def numberScaleMetrics_def booleanScaleMetrics_def newRating_def
  newMetric_def

section \<open>Properties of the counter store\<close>

lemma createMetrics_append:
  "createMetrics cId crsId yr sem subj cNum clsNum mName cv vs ms =
     ms @ map (newMetric cId crsId yr sem subj cNum clsNum mName cv) vs"
  by (induction vs arbitrary: ms) simp_all

lemma findMetric_append_None:
  "findMetric cId mName cv ms = None \<Longrightarrow>
     findMetric cId mName cv (ms @ ns) = findMetric cId mName cv ns"
  by (induction ms) (simp_all add: findMetric_def split: if_splits)

lemma isMetricFor_count [simp]:
  "isMetricFor cId mName cv (m\<lparr>categoryCount := c\<rparr>) = isMetricFor cId mName cv m"
  by (simp add: isMetricFor_def)

lemma findMetric_saveMetric:
  "findMetric cId mName cv ms = Some m \<Longrightarrow>
     findMetric cId mName cv (saveMetric cId mName cv d ms) =
       Some (m\<lparr>categoryCount := categoryCount m + d\<rparr>)"
proof (induction ms)
  case Nil
  then show ?case by (simp add: findMetric_def)
next
  case (Cons a ms)
  show ?case
  proof (cases "isMetricFor cId mName cv a")
    case True
    with Cons.prems show ?thesis by (simp add: findMetric_def)
  next
    case False
    with Cons show ?thesis by (simp add: findMetric_def)
  qed
qed

lemma findMetric_new_target:
  assumes "findMetric cId mName cv ms = None" and "cv \<in> set vs"
  shows "map_option categoryCount
           (findMetric cId mName cv
              (ms @ map (newMetric cId crsId yr sem subj cNum clsNum mName cv) vs)) = Some 1"
proof -
  have "map_option categoryCount
          (findMetric cId mName cv (map (newMetric cId crsId yr sem subj cNum clsNum mName cv) vs))
        = Some 1"
    using assms(2)
    by (induction vs) (auto simp: findMetric_def isMetricFor_def newMetric_def)
  with assms(1) show ?thesis by (simp add: findMetric_append_None)
qed

text \<open>
  Claim C2. When no row exists for the key (classId, metricName, categoryValue), an
  increment creates one row per category value of the metric's domain in that one call:
  the values 1 to 5 for a rating-scale metric, 0 and 1 for a boolean metric. The row of the
  target value has the count 1 and every other new row the count 0; when the target value
  is in the domain, the counter read back for the key is 1.
\<close>

theorem C2_increment_materializes_domain:
  assumes "findMetric cId mName cv ms = None"
  shows "(mName \<in> set (numberScaleMetrics M) \<longrightarrow>
            handleCategoryCountChange M cId crsId yr sem subj cNum clsNum mName cv True ms =
              Inr (ms @ map (\<lambda>v. \<lparr>classId = cId, courseId = crsId, year = yr, semester = sem,
                                  subject = subj, courseNumber = cNum, classNumber = clsNum,
                                  metricName = mName, categoryValue = v,
                                  categoryCount = (if v = cv then 1 else 0)\<rparr>) [1, 2, 3, 4, 5]))
       \<and> (mName \<notin> set (numberScaleMetrics M) \<and> mName \<in> set (booleanScaleMetrics M) \<longrightarrow>
            handleCategoryCountChange M cId crsId yr sem subj cNum clsNum mName cv True ms =
              Inr (ms @ map (\<lambda>v. \<lparr>classId = cId, courseId = crsId, year = yr, semester = sem,
                                  subject = subj, courseNumber = cNum, classNumber = clsNum,
                                  metricName = mName, categoryValue = v,
                                  categoryCount = (if v = cv then 1 else 0)\<rparr>) [0, 1]))
       \<and> (mName \<in> set (numberScaleMetrics M) \<and> cv \<in> {1, 2, 3, 4, 5} \<or>
           mName \<notin> set (numberScaleMetrics M) \<and> mName \<in> set (booleanScaleMetrics M) \<and> cv \<in> {0, 1} \<longrightarrow>
            (\<exists>ms'. handleCategoryCountChange M cId crsId yr sem subj cNum clsNum mName cv True ms = Inr ms'
                \<and> map_option categoryCount (findMetric cId mName cv ms') = Some 1))"
proof (intro conjI impI)
  assume "mName \<in> set (numberScaleMetrics M)"
  with assms show "handleCategoryCountChange M cId crsId yr sem subj cNum clsNum mName cv True ms =
              Inr (ms @ map (\<lambda>v. \<lparr>classId = cId, courseId = crsId, year = yr, semester = sem,
                                  subject = subj, courseNumber = cNum, classNumber = clsNum,
                                  metricName = mName, categoryValue = v,
                                  categoryCount = (if v = cv then 1 else 0)\<rparr>) [1, 2, 3, 4, 5])"
    by (simp add: handleCategoryCountChange_def createMetrics_append newMetric_def)
next
  assume "mName \<notin> set (numberScaleMetrics M) \<and> mName \<in> set (booleanScaleMetrics M)"
  with assms show "handleCategoryCountChange M cId crsId yr sem subj cNum clsNum mName cv True ms =
              Inr (ms @ map (\<lambda>v. \<lparr>classId = cId, courseId = crsId, year = yr, semester = sem,
                                  subject = subj, courseNumber = cNum, classNumber = clsNum,
                                  metricName = mName, categoryValue = v,
                                  categoryCount = (if v = cv then 1 else 0)\<rparr>) [0, 1])"
    by (simp add: handleCategoryCountChange_def createMetrics_append newMetric_def)
next
  assume a: "mName \<in> set (numberScaleMetrics M) \<and> cv \<in> {1, 2, 3, 4, 5} \<or>
           mName \<notin> set (numberScaleMetrics M) \<and> mName \<in> set (booleanScaleMetrics M) \<and> cv \<in> {0, 1}"
  then show "\<exists>ms'. handleCategoryCountChange M cId crsId yr sem subj cNum clsNum mName cv True ms = Inr ms'
                \<and> map_option categoryCount (findMetric cId mName cv ms') = Some 1"
  proof
    assume b: "mName \<in> set (numberScaleMetrics M) \<and> cv \<in> {1, 2, 3, 4, 5}"
    then have "cv \<in> set [1, 2, 3, 4, 5]" by simp
    from findMetric_new_target[OF assms this] b assms show ?thesis
      by (simp add: handleCategoryCountChange_def createMetrics_append)
  next
    assume b: "mName \<notin> set (numberScaleMetrics M) \<and> mName \<in> set (booleanScaleMetrics M) \<and> cv \<in> {0, 1}"
    then have "cv \<in> set [0, 1]" by simp
    from findMetric_new_target[OF assms this] b assms show ?thesis
      by (simp add: handleCategoryCountChange_def createMetrics_append)
  qed
qed

theorem C2_increment_materializes_domain_witness:
  "findMetric 7 ''Usefulness'' 3 [] = None \<and>
   ''Usefulness'' \<in> set (numberScaleMetrics [(''Usefulness'', True), (''Recording'', False)]) \<and>
   handleCategoryCountChange [(''Usefulness'', True), (''Recording'', False)] 7 ''c1'' 2024 ''Fall''
       ''COMPSCI'' ''61A'' ''001'' ''Usefulness'' 3 True [] =
     Inr (map (\<lambda>v. \<lparr>classId = 7, courseId = ''c1'', year = 2024, semester = ''Fall'',
                     subject = ''COMPSCI'', courseNumber = ''61A'', classNumber = ''001'',
                     metricName = ''Usefulness'', categoryValue = v,
                     categoryCount = (if v = 3 then 1 else 0)\<rparr>) [1, 2, 3, 4, 5]) \<and>
   findMetric 7 ''Recording'' 1 [] = None \<and>
   ''Recording'' \<notin> set (numberScaleMetrics [(''Usefulness'', True), (''Recording'', False)]) \<and>
   ''Recording'' \<in> set (booleanScaleMetrics [(''Usefulness'', True), (''Recording'', False)]) \<and>
   handleCategoryCountChange [(''Usefulness'', True), (''Recording'', False)] 7 ''c1'' 2024 ''Fall''
       ''COMPSCI'' ''61A'' ''001'' ''Recording'' 1 True [] =
     Inr (map (\<lambda>v. \<lparr>classId = 7, courseId = ''c1'', year = 2024, semester = ''Fall'',
                     subject = ''COMPSCI'', courseNumber = ''61A'', classNumber = ''001'',
                     metricName = ''Recording'', categoryValue = v,
                     categoryCount = (if v = 1 then 1 else 0)\<rparr>) [0, 1])"
proof -
  have h1: "findMetric 7 ''Usefulness'' 3 [] = None" by (simp add: findMetric_def)
  have h2: "findMetric 7 ''Recording'' 1 [] = None" by (simp add: findMetric_def)
  have m1: "''Usefulness'' \<in> set (numberScaleMetrics [(''Usefulness'', True), (''Recording'', False)])"
    by (simp add: numberScaleMetrics_def)
  have m2: "''Recording'' \<notin> set (numberScaleMetrics [(''Usefulness'', True), (''Recording'', False)])"
    by (simp add: numberScaleMetrics_def)
  have m3: "''Recording'' \<in> set (booleanScaleMetrics [(''Usefulness'', True), (''Recording'', False)])"
    by (simp add: booleanScaleMetrics_def)
  show ?thesis
    using h1 h2 m1 m2 m3
      C2_increment_materializes_domain [OF h1, of "[(''Usefulness'', True), (''Recording'', False)]" "''c1''" 2024 "''Fall''" "''COMPSCI''" "''61A''" "''001''"]
      C2_increment_materializes_domain [OF h2, of "[(''Usefulness'', True), (''Recording'', False)]" "''c1''" 2024 "''Fall''" "''COMPSCI''" "''61A''" "''001''"]
    by simp
qed

lemma saveMetric_member:
  "m' \<in> set (saveMetric cId mName cv d ms) \<Longrightarrow>
     m' \<in> set ms \<or>
     (\<exists>m. findMetric cId mName cv ms = Some m \<and> m' = m\<lparr>categoryCount := categoryCount m + d\<rparr>)"
proof (induction ms)
  case Nil
  then show ?case by simp
next
  case (Cons a ms)
  show ?case
  proof (cases "isMetricFor cId mName cv a")
    case True
    with Cons.prems show ?thesis by (auto simp: findMetric_def)
  next
    case False
    with Cons show ?thesis by (auto simp: findMetric_def)
  qed
qed


text \<open>
  Claim C4, as stated, asks for the error kind \<open>InvariantViolation\<close>. The decrement of
  a missing row throws the error with the code \<open>NOT_FOUND\<close>, the kind of a missing class
  or rating.
\<close>

theorem C4_error_kind_counterexample:
  "handleCategoryCountChange [(''Usefulness'', True)] 7 ''c1'' 2024 ''Fall'' ''COMPSCI'' ''61A''
      ''001'' ''Usefulness'' 3 False [] = Inl NotFound \<and>
   handleCategoryCountChange [(''Usefulness'', True)] 7 ''c1'' 2024 ''Fall'' ''COMPSCI'' ''61A''
      ''001'' ''Usefulness'' 3 False [] \<noteq> Inl InvariantViolation"
  by (simp add: handleCategoryCountChange_def findMetric_def)

text \<open>
  Claim C4, amended. When no row exists for the key (classId, metricName, categoryValue),
  a decrement fails with the error kind \<open>NotFound\<close>; it returns no collection, so no row
  is created.
\<close>

theorem C4_decrement_missing_row_not_found:
  assumes "findMetric cId mName cv ms = None"
  shows "handleCategoryCountChange M cId crsId yr sem subj cNum clsNum mName cv False ms
           = Inl NotFound"
  using assms by (simp add: handleCategoryCountChange_def)

theorem C4_decrement_missing_row_not_found_witness:
  "findMetric 7 ''Usefulness'' 3 [] = None \<and>
   handleCategoryCountChange [(''Usefulness'', True)] 7 ''c1'' 2024 ''Fall'' ''COMPSCI'' ''61A''
      ''001'' ''Usefulness'' 3 False [] = Inl NotFound"
proof -
  have h: "findMetric 7 ''Usefulness'' 3 [] = None" by (simp add: findMetric_def)
  show ?thesis
    using h C4_decrement_missing_row_not_found [OF h, of "[(''Usefulness'', True)]" "''c1''" 2024
        "''Fall''" "''COMPSCI''" "''61A''" "''001''"]
    by simp
qed

section \<open>Counter reads across an adjustment\<close>

lemma findMetric_saveMetric_other:
  assumes "cId' \<noteq> cId \<or> mName' \<noteq> mName \<or> cv' \<noteq> cv"
  shows "findMetric cId' mName' cv' (saveMetric cId mName cv d ms) = findMetric cId' mName' cv' ms"
proof (induction ms)
  case Nil
  show ?case by simp
next
  case (Cons a ms)
  show ?case
  proof (cases "isMetricFor cId mName cv a")
    case True
    then have "\<not> isMetricFor cId' mName' cv' a"
      using assms by (auto simp: isMetricFor_def)
    with True show ?thesis by (simp add: findMetric_def)
  next
    case False
    with Cons show ?thesis by (simp add: findMetric_def)
  qed
qed

lemma findMetric_append_Some:
  "findMetric cId mName cv ms = Some m \<Longrightarrow> findMetric cId mName cv (ms @ ns) = Some m"
  by (induction ms) (simp_all add: findMetric_def split: if_splits)

lemma countOf_new_other:
  assumes "cId' \<noteq> cId \<or> mName' \<noteq> mName \<or> cv' \<noteq> cv"
  shows "countOf cId' mName' cv' (map (newMetric cId crsId yr sem subj cNum clsNum mName cv) vs) = 0"
  using assms
  by (induction vs) (auto simp: countOf_def findMetric_def isMetricFor_def newMetric_def)

lemma countOf_append:
  "countOf cId mName cv (ms @ ns) =
     (case findMetric cId mName cv ms of None \<Rightarrow> countOf cId mName cv ns | Some m \<Rightarrow> categoryCount m)"
  by (simp add: countOf_def findMetric_append_None findMetric_append_Some split: option.splits)

lemma handle_missing_row_shape:
  assumes "findMetric cId mName cv ms = None"
    and "handleCategoryCountChange M cId crsId yr sem subj cNum clsNum mName cv isInc ms = Inr ms'"
  shows "isInc \<and>
         (mName \<in> set (numberScaleMetrics M) \<and>
            ms' = ms @ map (newMetric cId crsId yr sem subj cNum clsNum mName cv) [1, 2, 3, 4, 5] \<or>
          mName \<notin> set (numberScaleMetrics M) \<and> mName \<in> set (booleanScaleMetrics M) \<and>
            ms' = ms @ map (newMetric cId crsId yr sem subj cNum clsNum mName cv) [0, 1])"
  using assms
  by (auto simp: handleCategoryCountChange_def createMetrics_append simp del: list.map
      split: if_splits)

lemma handle_countOf_other:
  assumes "handleCategoryCountChange M cId crsId yr sem subj cNum clsNum mName cv isInc ms = Inr ms'"
    and "cId' \<noteq> cId \<or> mName' \<noteq> mName \<or> cv' \<noteq> cv"
  shows "countOf cId' mName' cv' ms' = countOf cId' mName' cv' ms"
proof (cases "findMetric cId mName cv ms")
  case (Some m)
  with assms(1) have "ms' = saveMetric cId mName cv (if isInc then 1 else - 1) ms"
    by (simp add: handleCategoryCountChange_def)
  then show ?thesis
    using findMetric_saveMetric_other[OF assms(2)] by (simp add: countOf_def)
next
  case None
  from handle_missing_row_shape[OF None assms(1)] obtain vs where
    "ms' = ms @ map (newMetric cId crsId yr sem subj cNum clsNum mName cv) vs"
    by blast
  then show ?thesis
    using countOf_new_other[OF assms(2)]
    by (simp add: countOf_append) (simp add: countOf_def split: option.splits)
qed

lemma valid_value_in_domain:
  assumes "checkValueConstraint M mName cv = Inr ()"
  shows "(mName \<in> set (numberScaleMetrics M) \<longrightarrow> cv \<in> set [1, 2, 3, 4, 5]) \<and>
         (mName \<notin> set (numberScaleMetrics M) \<and> mName \<in> set (booleanScaleMetrics M)
            \<longrightarrow> cv \<in> set [0, 1])"
proof -
  have "1 \<le> cv \<and> cv \<le> 5 \<Longrightarrow> cv \<in> set [1, 2, 3, 4, 5]"
    by (simp, arith)
  then show ?thesis
    using assms by (auto simp: checkValueConstraint_def split: if_splits)
qed

lemma handle_countOf_target:
  assumes "handleCategoryCountChange M cId crsId yr sem subj cNum clsNum mName cv isInc ms = Inr ms'"
    and "isInc \<longrightarrow> checkValueConstraint M mName cv = Inr ()"
  shows "countOf cId mName cv ms' = countOf cId mName cv ms + (if isInc then 1 else - 1)"
proof (cases "findMetric cId mName cv ms")
  case (Some m)
  with assms(1) have "ms' = saveMetric cId mName cv (if isInc then 1 else - 1) ms"
    by (simp add: handleCategoryCountChange_def)
  then show ?thesis
    using findMetric_saveMetric[OF Some] Some by (simp add: countOf_def)
next
  case None
  from handle_missing_row_shape[OF None assms(1)] have inc: isInc
    by simp
  from handle_missing_row_shape[OF None assms(1)] obtain vs where
    ms': "ms' = ms @ map (newMetric cId crsId yr sem subj cNum clsNum mName cv) vs" and
    vs: "mName \<in> set (numberScaleMetrics M) \<and> vs = [1, 2, 3, 4, 5] \<or>
         mName \<notin> set (numberScaleMetrics M) \<and> mName \<in> set (booleanScaleMetrics M) \<and> vs = [0, 1]"
    by blast
  from vs valid_value_in_domain[of M mName cv] assms(2) inc have "cv \<in> set vs"
    by auto
  from findMetric_new_target[OF None this, of crsId yr sem subj cNum clsNum] ms' None inc
  show ?thesis
    by (auto simp: countOf_def split: option.splits)
qed

section \<open>Properties of the rating store\<close>

lemma deleteOne_remove1:
  "distinct (map rid xs) \<Longrightarrow> r \<in> set xs \<Longrightarrow> deleteOne (rid r) xs = remove1 r xs"
  by (induction xs) (auto simp: image_iff)

lemma database_invalidate [simp]:
  "database (invalidateRatingsCaches c s) = database s"
  "sessions (invalidateRatingsCaches c s) = sessions s"
  by (simp_all add: invalidateRatingsCaches_def)





lemma events_invalidate [simp]:
  "events (invalidateRatingsCaches c s) = events s @ [Invalidated c]"
  by (simp add: invalidateRatingsCaches_def)

text \<open>
  A transaction that fails leaves the database as it was when the transaction began, and
  so does a failed \<open>createRating\<close>.
\<close>

lemma withTransaction_rollback:
  "withTransaction body s = (Inl e, s') \<Longrightarrow> database s' = database s"
  by (auto simp: withTransaction_def split: prod.splits sum.splits)








text \<open>
  Claim C9. Each mutating operation, called with an empty user id, fails with
  \<open>Unauthenticated\<close> and returns the state it was given: no rating, counter or cache
  entry is changed and no session is started.
\<close>

theorem C9_unauthenticated:
  "createRating M ceiling [] yr sem subj cNum clsNum mName v s = (Inl Unauthenticated, s) \<and>
   createRatings M REQUIRED_METRICS ceiling [] yr sem subj cNum clsNum metricInputs s =
     (Inl Unauthenticated, s) \<and>
   deleteRating M [] yr sem subj cNum clsNum mName existingSession s = (Inl Unauthenticated, s) \<and>
   deleteRatings M [] subj cNum s = (Inl Unauthenticated, s)"
  by (simp add: createRating_def createRatings_def deleteRating_def deleteRatings_def)

text \<open>
  Claim C10. When an authenticated user has no rating for (subject, courseNumber),
  \<open>deleteRatings\<close> returns true and the state it was given: no session or transaction is
  started, no error is raised, and the ratings, counters and caches are unchanged.
\<close>

theorem C10_delete_ratings_nothing_to_delete:
  assumes "uid \<noteq> []"
    and "filter (\<lambda>r. createdBy r = uid \<and> subject r = subj \<and> courseNumber r = cNum)
           (ratings (database s)) = []"
  shows "deleteRatings M uid subj cNum s = (Inr True, s)"
  using assms by (simp add: deleteRatings_def)

theorem C10_delete_ratings_nothing_to_delete_witness:
  "filter (\<lambda>r. createdBy r = ''u2'' \<and> subject r = ''COMPSCI'' \<and> courseNumber r = ''61A'')
      (ratings (database (sampleState ''Usefulness''))) = [] \<and>
   deleteRatings sampleMappings ''u2'' ''COMPSCI'' ''61A'' (sampleState ''Usefulness'') =
     (Inr True, sampleState ''Usefulness'')"
proof -
  have h1: "''u2'' \<noteq> []" by simp
  have h2: "filter (\<lambda>r. createdBy r = ''u2'' \<and> subject r = ''COMPSCI'' \<and> courseNumber r = ''61A'')
      (ratings (database (sampleState ''Usefulness'' :: (nat, nat, nat) state))) = []"
    by (simp add: sample_defs)
  show ?thesis
    using h2 C10_delete_ratings_nothing_to_delete [OF h1 h2, of sampleMappings] by simp
qed

section \<open>Consistency is preserved\<close>

text \<open>
  Each mutating operation, run by itself from its first read to its commit or abort,
  takes a consistent database to a consistent one. The lemmas of this section are about
  one call at a time; they say nothing of two calls that overlap.
\<close>

lemma deleteOne_set: "set (deleteOne i rs) \<subseteq> set rs"
  by (induction rs) auto

lemma deleteOne_distinct: "distinct (map rid rs) \<Longrightarrow> distinct (map rid (deleteOne i rs))"
proof (induction rs)
  case Nil
  then show ?case by simp
next
  case (Cons a rs)
  then show ?case using deleteOne_set[of i rs] by (auto simp: image_iff)
qed

lemma count_remove1:
  "r \<in> set rs \<Longrightarrow>
     int (length (filter P (remove1 r rs))) = int (length (filter P rs)) - (if P r then 1 else 0)"
  by (induction rs) auto

lemma liveRatings_deleteOne:
  assumes "distinct (map rid rs)" and "r \<in> set rs"
  shows "liveRatings cId mName cv (deleteOne (rid r) rs) =
           liveRatings cId mName cv rs - (if hasKey cId mName cv r then 1 else 0)"
  using deleteOne_remove1[OF assms] count_remove1[OF assms(2), of "hasKey cId mName cv"]
  by (simp add: liveRatings_def)

lemma liveRatings_append:
  "liveRatings cId mName cv (rs @ [r]) =
     liveRatings cId mName cv rs + (if hasKey cId mName cv r then 1 else 0)"
  by (simp add: liveRatings_def)

lemma updateOne_rid: "map rid (updateOne i v rs) = map rid rs"
  by (induction rs) auto

lemma updateOne_set_rid: "x \<in> set (updateOne i v rs) \<Longrightarrow> rid x \<in> rid ` set rs"
  using updateOne_rid[of i v rs] by (metis image_eqI list.set_map)

lemma liveRatings_Cons:
  "liveRatings cId mName cv (r # rs) =
     liveRatings cId mName cv rs + (if hasKey cId mName cv r then 1 else 0)"
  by (simp add: liveRatings_def)

lemma liveRatings_updateOne:
  assumes "distinct (map rid rs)" and "r \<in> set rs"
  shows "liveRatings cId mName cv (updateOne (rid r) v rs) =
           liveRatings cId mName cv rs - (if hasKey cId mName cv r then 1 else 0)
             + (if hasKey cId mName cv (r\<lparr>value := v\<rparr>) then 1 else 0)"
  using assms
proof (induction rs)
  case Nil
  then show ?case by simp
next
  case (Cons a rs)
  show ?case
  proof (cases "rid a = rid r")
    case True
    with Cons.prems have "a = r" by (auto simp: image_iff)
    then show ?thesis by (simp add: liveRatings_Cons)
  next
    case False
    with Cons.prems have "r \<in> set rs" "distinct (map rid rs)" by auto
    from Cons.IH[OF this(2) this(1)]
    have "liveRatings cId mName cv (a # updateOne (rid r) v rs) =
            liveRatings cId mName cv (a # rs) - (if hasKey cId mName cv r then 1 else 0)
              + (if hasKey cId mName cv (r\<lparr>value := v\<rparr>) then 1 else 0)"
      unfolding liveRatings_Cons by linarith
    with False show ?thesis by simp
  qed
qed

lemma liveRatings_pos: "r \<in> set rs \<Longrightarrow> 1 \<le> liveRatings (classId r) (metricName r) (value r) rs"
proof -
  assume "r \<in> set rs"
  then have "r \<in> set (filter (hasKey (classId r) (metricName r) (value r)) rs)"
    by (simp add: hasKey_def)
  then have "0 < length (filter (hasKey (classId r) (metricName r) (value r)) rs)"
    by (rule length_pos_if_in_set)
  then show ?thesis unfolding liveRatings_def by linarith
qed

lemma handle_nonneg:
  assumes "handleCategoryCountChange M cId crsId yr sem subj cNum clsNum mName cv isInc ms = Inr ms'"
    and "\<forall>m \<in> set ms. 0 \<le> categoryCount m"
    and "isInc \<or> 1 \<le> countOf cId mName cv ms"
  shows "\<forall>m \<in> set ms'. 0 \<le> categoryCount m"
proof (cases "findMetric cId mName cv ms")
  case None
  from handle_missing_row_shape[OF None assms(1)] assms(2) show ?thesis
    by (auto simp: newMetric_def)
next
  case (Some m)
  with assms(1) have ms': "ms' = saveMetric cId mName cv (if isInc then 1 else - 1) ms"
    by (simp add: handleCategoryCountChange_def)
  have m: "m \<in> set ms" using Some by (auto simp: findMetric_def find_Some_iff)
  show ?thesis
  proof
    fix x assume "x \<in> set ms'"
    from saveMetric_member[OF this[unfolded ms']] Some
    have "x \<in> set ms \<or> x = m\<lparr>categoryCount := categoryCount m + (if isInc then 1 else - 1)\<rparr>"
      by auto
    then show "0 \<le> categoryCount x"
      using assms(2,3) m Some by (auto simp: countOf_def split: if_splits)
  qed
qed

lemma handle_countOf:
  assumes "handleCategoryCountChange M cId crsId yr sem subj cNum clsNum mName cv isInc ms = Inr ms'"
    and "isInc \<longrightarrow> checkValueConstraint M mName cv = Inr ()"
  shows "countOf cId' mName' cv' ms' =
           countOf cId' mName' cv' ms +
             (if cId' = cId \<and> mName' = mName \<and> cv' = cv then (if isInc then 1 else - 1) else 0)"
proof (cases "cId' = cId \<and> mName' = mName \<and> cv' = cv")
  case True
  then show ?thesis using handle_countOf_target[OF assms] by simp
next
  case False
  then have "cId' \<noteq> cId \<or> mName' \<noteq> mName \<or> cv' \<noteq> cv" by blast
  from handle_countOf_other[OF assms(1) this] False show ?thesis by simp
qed

lemma createNewRating_consistent:
  assumes c: "consistent db"
    and v: "checkValueConstraint M (metricName rd) (value rd) = Inr ()"
    and r: "createNewRating M uid rd db = Inr db'"
  shows "consistent db'"
proof -
  from r obtain ms' where
    h: "handleCategoryCountChange M (classId rd) (courseId rd) (year rd) (semester rd)
          (subject rd) (courseNumber rd) (classNumber rd) (metricName rd) (value rd) True
          (metrics db) = Inr ms'"
    and db': "db' = db\<lparr>ratings := ratings db @ [newRating uid rd (nextId db)],
                        metrics := ms', nextId := nextId db + 1\<rparr>"
    by (auto simp: createNewRating_def split: sum.splits)
  have k: "hasKey cId mName cv (newRating uid rd (nextId db)) \<longleftrightarrow>
             cId = classId rd \<and> mName = metricName rd \<and> cv = value rd" for cId mName cv
    by (auto simp: hasKey_def newRating_def)
  have "distinct (map rid (ratings db'))"
    using c by (auto simp: consistent_def db' newRating_def)
  moreover have "\<forall>x \<in> set (ratings db'). rid x < nextId db'"
    using c by (auto simp: consistent_def db' newRating_def)
  moreover have "\<forall>m \<in> set (metrics db'). 0 \<le> categoryCount m"
    using handle_nonneg[OF h] c by (simp add: consistent_def db')
  moreover have "countOf cId mName cv (metrics db') = liveRatings cId mName cv (ratings db')"
    for cId mName cv
    using handle_countOf[OF h, of cId mName cv] v c k[of cId mName cv]
    by (simp add: consistent_def db' liveRatings_append)
  ultimately show ?thesis by (simp add: consistent_def)
qed

lemma remove_consistent:
  assumes c: "consistent db"
    and r: "r \<in> set (ratings db)"
    and h: "handleCategoryCountChange M (classId r) crsId yr sem subj cNum clsNum (metricName r)
              (value r) False (metrics db) = Inr ms'"
  shows "consistent (db\<lparr>ratings := deleteOne (rid r) (ratings db), metrics := ms'\<rparr>)"
proof -
  let ?db' = "db\<lparr>ratings := deleteOne (rid r) (ratings db), metrics := ms'\<rparr>"
  from c have d: "distinct (map rid (ratings db))" by (simp add: consistent_def)
  have pos: "1 \<le> countOf (classId r) (metricName r) (value r) (metrics db)"
    using c liveRatings_pos[OF r] by (simp add: consistent_def)
  have k: "hasKey cId mName cv r \<longleftrightarrow> cId = classId r \<and> mName = metricName r \<and> cv = value r"
    for cId mName cv
    by (auto simp: hasKey_def)
  have "distinct (map rid (ratings ?db'))"
    using deleteOne_distinct[OF d] by simp
  moreover have "\<forall>x \<in> set (ratings ?db'). rid x < nextId ?db'"
    using c deleteOne_set[of "rid r" "ratings db"] by (auto simp: consistent_def)
  moreover have "\<forall>m \<in> set (metrics ?db'). 0 \<le> categoryCount m"
    using handle_nonneg[OF h] c pos by (simp add: consistent_def)
  moreover have "countOf cId mName cv (metrics ?db') = liveRatings cId mName cv (ratings ?db')"
    for cId mName cv
    using handle_countOf[OF h, of cId mName cv] c k[of cId mName cv]
      liveRatings_deleteOne[OF d r, of cId mName cv]
    by (simp add: consistent_def)
  ultimately show ?thesis by (simp add: consistent_def)
qed

lemma handleExistingRating_consistent:
  assumes c: "consistent db"
    and r: "r \<in> set (ratings db)"
    and v: "checkValueConstraint M (metricName r) v = Inr ()"
    and h: "handleExistingRating M r v db = Inr db'"
  shows "consistent db'"
proof (cases "value r = v")
  case True
  with h have "db' = db" by (simp add: handleExistingRating_def)
  with c show ?thesis by simp
next
  case False
  from c have d: "distinct (map rid (ratings db))" by (simp add: consistent_def)
  from h False obtain ms1 ms2 where
    dec: "handleCategoryCountChange M (classId r) (courseId r) (year r) (semester r) (subject r)
            (courseNumber r) (classNumber r) (metricName r) (value r) False (metrics db) = Inr ms1"
    and inc: "handleCategoryCountChange M (classId r) (courseId r) (year r) (semester r)
            (subject r) (courseNumber r) (classNumber r) (metricName r) v True ms1 = Inr ms2"
    and db': "db' = db\<lparr>ratings := updateOne (rid r) v (ratings db), metrics := ms2\<rparr>"
    by (auto simp: handleExistingRating_def Let_def split: sum.splits)
  have pos: "1 \<le> countOf (classId r) (metricName r) (value r) (metrics db)"
    using c liveRatings_pos[OF r] by (simp add: consistent_def)
  have n1: "\<forall>m \<in> set ms1. 0 \<le> categoryCount m"
    using handle_nonneg[OF dec] c pos by (simp add: consistent_def)
  have n2: "\<forall>m \<in> set ms2. 0 \<le> categoryCount m"
    using handle_nonneg[OF inc n1] by simp
  have k: "hasKey cId mName cv r \<longleftrightarrow> cId = classId r \<and> mName = metricName r \<and> cv = value r"
          "hasKey cId mName cv (r\<lparr>value := v\<rparr>) \<longleftrightarrow>
             cId = classId r \<and> mName = metricName r \<and> cv = v"
    for cId mName cv
    by (auto simp: hasKey_def)
  have "distinct (map rid (ratings db'))"
    using d by (simp add: db' updateOne_rid)
  moreover have "\<forall>x \<in> set (ratings db'). rid x < nextId db'"
  proof
    fix x assume "x \<in> set (ratings db')"
    then have "rid x \<in> rid ` set (ratings db)"
      using updateOne_set_rid[of x "rid r" v "ratings db"] by (simp add: db')
    then obtain y where "y \<in> set (ratings db)" "rid x = rid y" by blast
    with c show "rid x < nextId db'" by (simp add: consistent_def db')
  qed
  moreover have "\<forall>m \<in> set (metrics db'). 0 \<le> categoryCount m"
    using n2 by (simp add: db')
  moreover have "countOf cId mName cv (metrics db') = liveRatings cId mName cv (ratings db')"
    for cId mName cv
    using handle_countOf[OF dec, of cId mName cv] handle_countOf[OF inc, of cId mName cv] v c
      k[of cId mName cv] liveRatings_updateOne[OF d r, of cId mName cv v]
    by (simp add: consistent_def db')
  ultimately show ?thesis by (simp add: consistent_def)
qed

lemma deleteRatingOperations_consistent:
  assumes c: "consistent db"
    and r: "deleteRatingOperations M uid yr sem subj cNum clsNum mName db = Inr (r, db')"
  shows "consistent db'"
proof -
  from r obtain ms where
    f: "find (\<lambda>r. createdBy r = uid \<and> subject r = subj \<and> courseNumber r = cNum \<and>
                   semester r = sem \<and> year r = yr \<and> classNumber r = clsNum \<and>
                   metricName r = mName) (ratings db) = Some r"
    and h: "handleCategoryCountChange M (classId r) (courseId r) yr sem subj cNum clsNum mName
              (value r) False (metrics db) = Inr ms"
    and db': "db' = db\<lparr>ratings := deleteOne (rid r) (ratings db), metrics := ms\<rparr>"
    by (auto simp: deleteRatingOperations_def split: option.splits sum.splits)
  from f have m: "r \<in> set (ratings db)" "metricName r = mName"
    by (auto simp: find_Some_iff)
  from remove_consistent[OF c m(1)] h m(2) show ?thesis by (simp add: db')
qed

lemma deleteRating_consistent:
  assumes "consistent (database s)"
  shows "consistent (database (snd (deleteRating M uid yr sem subj cNum clsNum mName b s)))"
proof (cases "deleteRatingOperations M uid yr sem subj cNum clsNum mName (database s)")
  case (Inl e)
  with assms show ?thesis
    by (simp add: deleteRating_def withTransaction_def startSession_def)
next
  case (Inr p)
  obtain r db' where p: "p = (r, db')" by (cases p)
  from deleteRatingOperations_consistent[OF assms Inr[unfolded p]] have "consistent db'" .
  with assms Inr p show ?thesis
    by (simp add: deleteRating_def withTransaction_def startSession_def)
qed

lemma inSession_consistent:
  assumes "inSession f s = (Inr x, s')" and "\<And>db'. f (database s) = Inr db' \<Longrightarrow> consistent db'"
  shows "consistent (database s')"
  using assms by (auto simp: inSession_def split: sum.splits)

lemma createRatingBody_consistent:
  assumes c: "consistent (database s)"
    and v: "checkValueConstraint M (metricName rd) (value rd) = Inr ()"
    and b: "createRatingBody M uid rd s = (Inr x, s')"
  shows "consistent (database s')"
proof (cases "checkRatingExists uid (subject rd) (courseNumber rd) (metricName rd)
                (ratings (database s))")
  case None
  with b have "inSession (createNewRating M uid rd) s = (Inr x, s')"
    by (simp add: createRatingBody_def)
  then show ?thesis
    using createNewRating_consistent[OF c v] by (rule inSession_consistent)
next
  case (Some ex)
  then have ex: "ex \<in> set (ratings (database s))" "metricName ex = metricName rd"
    by (auto simp: checkRatingExists_def find_Some_iff isRatingOf_def)
  show ?thesis
  proof (cases "semester ex \<noteq> semester rd \<or> year ex \<noteq> year rd \<or> classNumber ex \<noteq> classNumber rd")
    case True
    let ?d = "deleteRating M uid (year ex) (semester ex) (subject ex) (courseNumber ex)
                (classNumber ex) (metricName ex) True s"
    obtain res s1 where d: "?d = (res, s1)" by (cases ?d)
    from deleteRating_consistent[OF c, of M uid "year ex" "semester ex" "subject ex"
        "courseNumber ex" "classNumber ex" "metricName ex" True] d
    have c1: "consistent (database s1)" by simp
    from b Some True d have "inSession (createNewRating M uid rd) s1 = (Inr x, s')"
      by (auto simp: createRatingBody_def split: sum.splits)
    then show ?thesis
      using createNewRating_consistent[OF c1 v] by (rule inSession_consistent)
  next
    case False
    with b Some have "inSession (handleExistingRating M ex (value rd)) s = (Inr x, s')"
      by (simp add: createRatingBody_def)
    then show ?thesis
      using handleExistingRating_consistent[OF c ex(1)] v ex(2)
      by (auto intro: inSession_consistent)
  qed
qed

lemma withTransaction_consistent:
  assumes "consistent (database s)"
    and "\<And>x s'. body s = (Inr x, s') \<Longrightarrow> consistent (database s')"
  shows "consistent (database (snd (withTransaction body s)))"
proof (cases "body s")
  case (Pair res s')
  with assms show ?thesis
    by (cases res) (simp_all add: withTransaction_def)
qed

lemma withTransaction_result:
  "withTransaction body s = (res, s') \<Longrightarrow> s' = snd (withTransaction body s)"
  by simp

lemma createRating_consistent:
  assumes c: "consistent (database s)"
  shows "consistent (database (snd (createRating M ceiling uid yr sem subj cNum clsNum mName v s)))"
proof -
  have "consistent (database (snd (withTransaction (createRatingBody M uid rd) (startSession s))))"
    if "checkValueConstraint M (metricName rd) (value rd) = Inr ()" for rd
  proof (rule withTransaction_consistent)
    show "consistent (database (startSession s))"
      using c by (simp add: startSession_def)
  next
    fix x s'
    assume "createRatingBody M uid rd (startSession s) = (Inr x, s')"
    moreover have "consistent (database (startSession s))"
      using c by (simp add: startSession_def)
    ultimately show "consistent (database s')"
      using createRatingBody_consistent that by blast
  qed
  then show ?thesis
    using c
    by (auto simp: createRating_def Let_def split: sum.splits prod.splits
        dest!: withTransaction_result)
qed

lemma distinct_of_rid: "distinct (map rid rs) \<Longrightarrow> distinct rs"
  by (simp add: distinct_map)

lemma deleteOne_set_eq:
  assumes "distinct (map rid rs)" and "r \<in> set rs"
  shows "set (deleteOne (rid r) rs) = set rs - {r}"
proof -
  from assms(1) have "distinct rs" by (rule distinct_of_rid)
  then show ?thesis
    using deleteOne_remove1[OF assms] by simp
qed

lemma deleteExistingRatings_consistent:
  assumes "consistent db" and "set xs \<subseteq> set (ratings db)" and "distinct xs"
    and "deleteExistingRatings M xs db = Inr db'"
  shows "consistent db'"
  using assms
proof (induction xs arbitrary: db)
  case Nil
  then show ?case by simp
next
  case (Cons x xs)
  from Cons.prems(2) have x: "x \<in> set (ratings db)" by simp
  from Cons.prems(4) obtain ms where
    h: "handleCategoryCountChange M (classId x) (courseId x) (year x) (semester x) (subject x)
          (courseNumber x) (classNumber x) (metricName x) (value x) False (metrics db) = Inr ms"
    and rest: "deleteExistingRatings M xs
                 (db\<lparr>ratings := deleteOne (rid x) (ratings db), metrics := ms\<rparr>) = Inr db'"
    by (auto split: sum.splits)
  let ?db1 = "db\<lparr>ratings := deleteOne (rid x) (ratings db), metrics := ms\<rparr>"
  have c1: "consistent ?db1"
    using remove_consistent[OF Cons.prems(1) x h] .
  from Cons.prems(1) have d: "distinct (map rid (ratings db))" by (simp add: consistent_def)
  have "set xs \<subseteq> set (ratings ?db1)"
    using deleteOne_set_eq[OF d x] Cons.prems(2,3) by auto
  moreover have "distinct xs" using Cons.prems(3) by simp
  ultimately show ?case
    using Cons.IH[OF c1 _ _ rest] by blast
qed

lemma createMetricRatings_consistent:
  assumes "consistent db" and "checkValueConstraints M inputs = Inr ()"
    and "createMetricRatings M uid classDoc yr sem subj cNum clsNum inputs db = Inr db'"
  shows "consistent db'"
  using assms
proof (induction inputs arbitrary: db)
  case Nil
  then show ?case by simp
next
  case (Cons a inputs)
  obtain mName v where a: "a = (mName, v)" by (cases a)
  let ?rd = "\<lparr>classId = class_id classDoc, courseId = class_courseId classDoc, year = yr,
              semester = sem, subject = subj, courseNumber = cNum, classNumber = clsNum,
              metricName = mName, value = v\<rparr>"
  from Cons.prems(2) a have v: "checkValueConstraint M mName v = Inr ()"
    and vs: "checkValueConstraints M inputs = Inr ()"
    by (auto split: sum.splits)
  from Cons.prems(3) a obtain db1 where
    n: "createNewRating M uid ?rd db = Inr db1"
    and rest: "createMetricRatings M uid classDoc yr sem subj cNum clsNum inputs db1 = Inr db'"
    by (auto split: sum.splits)
  have "consistent db1"
    using createNewRating_consistent[OF Cons.prems(1) _ n] v by simp
  from Cons.IH[OF this vs rest] show ?case .
qed

lemma createRatings_consistent:
  assumes c: "consistent (database s)"
  shows "consistent (database (snd (createRatings M REQUIRED_METRICS ceiling uid yr sem subj cNum
            clsNum metricInputs s)))"
proof -
  have "consistent (database (snd (withTransaction
           (inSession (\<lambda>db. case deleteExistingRatings M
                                   (filter P (ratings (database s))) db of
                              Inl e \<Rightarrow> Inl e
                            | Inr db' \<Rightarrow>
                                createMetricRatings M uid classDoc yr sem subj cNum clsNum
                                  metricInputs db'))
           (startSession s))))"
    if v: "checkValueConstraints M metricInputs = Inr ()" for P classDoc
  proof (rule withTransaction_consistent)
    show "consistent (database (startSession s))"
      using c by (simp add: startSession_def)
  next
    fix x s'
    assume b: "inSession (\<lambda>db. case deleteExistingRatings M (filter P (ratings (database s))) db of
                              Inl e \<Rightarrow> Inl e
                            | Inr db' \<Rightarrow>
                                createMetricRatings M uid classDoc yr sem subj cNum clsNum
                                  metricInputs db') (startSession s) = (Inr x, s')"
    from c have d: "distinct (ratings (database s))"
      by (auto simp: consistent_def dest: distinct_of_rid)
    show "consistent (database s')"
    proof (rule inSession_consistent[OF b])
      fix db'
      assume "(case deleteExistingRatings M (filter P (ratings (database s)))
                      (database (startSession s)) of
                 Inl e \<Rightarrow> Inl e
               | Inr db' \<Rightarrow>
                   createMetricRatings M uid classDoc yr sem subj cNum clsNum metricInputs db')
              = Inr db'"
      then obtain db1 where
        del: "deleteExistingRatings M (filter P (ratings (database s))) (database s) = Inr db1"
        and cr: "createMetricRatings M uid classDoc yr sem subj cNum clsNum metricInputs db1
                   = Inr db'"
        by (auto simp: startSession_def split: sum.splits)
      have "consistent db1"
        using deleteExistingRatings_consistent[OF c _ _ del] d by simp
      from createMetricRatings_consistent[OF this v cr] show "consistent db'" .
    qed
  qed
  then show ?thesis
    using c
    by (auto simp: createRatings_def Let_def split: sum.splits prod.splits
        dest!: withTransaction_result)
qed

lemma fold_invalidate_database [simp]:
  "database (fold invalidateRatingsCaches cs s) = database s"
  by (induction cs arbitrary: s) simp_all

lemma deleteRatings_consistent:
  assumes c: "consistent (database s)"
  shows "consistent (database (snd (deleteRatings M uid subj cNum s)))"
proof -
  have "consistent (database (snd (withTransaction
           (inSession (deleteExistingRatings M (filter P (ratings (database s)))))
           (startSession s))))" for P
  proof (rule withTransaction_consistent)
    show "consistent (database (startSession s))"
      using c by (simp add: startSession_def)
  next
    fix x s'
    assume b: "inSession (deleteExistingRatings M (filter P (ratings (database s))))
                 (startSession s) = (Inr x, s')"
    from c have d: "distinct (ratings (database s))"
      by (auto simp: consistent_def dest: distinct_of_rid)
    show "consistent (database s')"
    proof (rule inSession_consistent[OF b])
      fix db'
      assume "deleteExistingRatings M (filter P (ratings (database s)))
                (database (startSession s)) = Inr db'"
      then have "deleteExistingRatings M (filter P (ratings (database s))) (database s) = Inr db'"
        by (simp add: startSession_def)
      from deleteExistingRatings_consistent[OF c _ _ this] d show "consistent db'" by simp
    qed
  qed
  then show ?thesis
    using c
    by (auto simp: deleteRatings_def Let_def split: sum.splits prod.splits
        dest!: withTransaction_result)
qed

section \<open>The sign of the counts\<close>

text \<open>
  \<open>deleteRatings\<close> is its read followed by its second half.
\<close>

lemma deleteRatings_read_then_run:
  "deleteRatings M uid subj cNum s =
     (if uid = [] then (Inl Unauthenticated, s)
      else deleteRatingsAfterRead M (findExistingRatings uid subj cNum s) s)"
  by (simp add: deleteRatings_def deleteRatingsAfterRead_def findExistingRatings_def Let_def)







section \<open>Properties of the caches\<close>

text \<open>
  Claim C6, as stated, has the cached value returned exactly when \<open>now < expiresAt\<close>.
  The source treats an entry as stale when \<open>now > expiresAt\<close>: at \<open>now = expiresAt\<close>
  the read returns the cached value and keeps the entry.
\<close>

theorem C6_boundary_counterexample:
  "getCachedValue 1000 [(''c1:all'', \<lparr>cvalue = 7 :: nat, expiresAt = 1000\<rparr>)] ''c1:all'' =
     (Some 7, [(''c1:all'', \<lparr>cvalue = 7, expiresAt = 1000\<rparr>)])"
  by (simp add: getCachedValue_def)

text \<open>
  Claim C6, amended. For a cache entry with the expiry time \<open>expiresAt\<close>, a read at the
  time \<open>now\<close> returns the cached value exactly when \<open>now \<le> expiresAt\<close>, and then leaves
  the state as it is. Otherwise the read is a miss: the stale entry is deleted, the result
  is computed again by the aggregator, and the fresh result is stored under the key with
  the expiry time of the clock at the store plus the time to live of the course cache.
\<close>

theorem C6_cached_read:
  assumes "getCourseId subj cNum (courses (database s)) = Some crsId" and "crsId \<noteq> []"
    and "cacheKey = crsId @ '':'' @ getMetricNamesKey le metricNames"
    and "map_of (courseAggregatedRatingsCache s) cacheKey = Some entry"
    and "fresh = (case courseRatingAggregator (database s) crsId of
                    [] \<Rightarrow> emptyAggregate subj cNum
                  | aggregated # others \<Rightarrow>
                      filterAggregatedMetrics (formatAggregatedRatings aggregated) metricNames)"
  shows "getCachedValue now (courseAggregatedRatingsCache s) cacheKey =
           (if now \<le> expiresAt entry then (Some (cvalue entry), courseAggregatedRatingsCache s)
            else (None, AList.delete cacheKey (courseAggregatedRatingsCache s))) \<and>
         getCourseAggregatedRatings courseRatingAggregator formatAggregatedRatings le now now'
             subj cNum metricNames s =
           (if now \<le> expiresAt entry then (cvalue entry, s)
            else (fresh,
                  s\<lparr>courseAggregatedRatingsCache :=
                      AList.update cacheKey
                        \<lparr>cvalue = fresh, expiresAt = now' + COURSE_AGGREGATED_RATINGS_TTL_MS\<rparr>
                        (AList.delete cacheKey (courseAggregatedRatingsCache s))\<rparr>)) \<and>
         map_of (courseAggregatedRatingsCache
                   (snd (getCourseAggregatedRatings courseRatingAggregator formatAggregatedRatings
                           le now now' subj cNum metricNames s))) cacheKey =
           Some (if now \<le> expiresAt entry then entry
                 else \<lparr>cvalue = fresh, expiresAt = now' + COURSE_AGGREGATED_RATINGS_TTL_MS\<rparr>)"
  using assms
  by (simp add: getCachedValue_def getCourseAggregatedRatings_def setCachedValue_def
      update_conv' not_le Let_def)

theorem C6_cached_read_witness:
  "getCourseId ''COMPSCI'' ''61A'' (courses (sampleDatabase ''Usefulness'')) = Some ''c1'' \<and>
   getCachedValue 120000 [(''c1:all'', \<lparr>cvalue = emptyAggregate ''X'' ''1'', expiresAt = 120000\<rparr>)]
       ''c1:all'' =
     (Some (emptyAggregate ''X'' ''1'' :: nat formattedRatings),
      [(''c1:all'', \<lparr>cvalue = emptyAggregate ''X'' ''1'', expiresAt = 120000\<rparr>)]) \<and>
   fst (getCourseAggregatedRatings (\<lambda>db c. ([] :: nat list)) (\<lambda>raw. emptyAggregate [] [])
          (\<lambda>a b. True) 120001 120005 ''COMPSCI'' ''61A'' None
          \<lparr>database = sampleDatabase ''Usefulness'',
           courseAggregatedRatingsCache =
             [(''c1:all'', \<lparr>cvalue = emptyAggregate ''X'' ''1'' :: nat formattedRatings,
                            expiresAt = 120000\<rparr>)],
           semestersWithRatingsCache = ([] :: nat cache),
           instructorAggregatedRatingsCache = ([] :: nat cache),
           sessions = 0, events = []\<rparr>) = emptyAggregate ''COMPSCI'' ''61A''"
proof -
  let ?e = "\<lparr>cvalue = emptyAggregate ''X'' ''1'' :: nat formattedRatings, expiresAt = 120000\<rparr>"
  let ?s = "\<lparr>database = sampleDatabase ''Usefulness'',
             courseAggregatedRatingsCache = [(''c1:all'', ?e)],
             semestersWithRatingsCache = ([] :: nat cache),
             instructorAggregatedRatingsCache = ([] :: nat cache),
             sessions = 0, events = []\<rparr>"
  have h1: "getCourseId ''COMPSCI'' ''61A'' (courses (database ?s)) = Some ''c1''"
    by (simp add: getCourseId_def sample_defs)
  have h2: "''c1'' \<noteq> []" by simp
  have h3: "''c1:all'' = ''c1'' @ '':'' @ getMetricNamesKey (\<lambda>a b. True) None"
    by (simp add: getMetricNamesKey_def)
  have h4: "map_of (courseAggregatedRatingsCache ?s) ''c1:all'' = Some ?e"
    by simp
  have h5: "(emptyAggregate ''COMPSCI'' ''61A'' :: nat formattedRatings) =
              (case (\<lambda>db c. ([] :: nat list)) (database ?s) ''c1'' of
                 [] \<Rightarrow> emptyAggregate ''COMPSCI'' ''61A''
               | aggregated # others \<Rightarrow>
                   filterAggregatedMetrics ((\<lambda>raw. emptyAggregate [] []) aggregated) None)"
    by simp
  show ?thesis
    using h1 C6_cached_read [OF h1 h2 h3 h4 h5, of 120000 120005]
      C6_cached_read [OF h1 h2 h3 h4 h5, of 120001 120005]
    by simp
qed

lemma map_of_filter_key:
  "map_of (filter (\<lambda>(k, e). P k) xs) k' = (if P k' then map_of xs k' else None)"
  by (induction xs) auto

lemma prefix_colon_eq:
  assumes "prefix (c @ '':'') (c' @ '':'' @ rest)"
    and "CHR '':'' \<notin> set c" and "CHR '':'' \<notin> set c'"
  shows "c = c'"
  using assms
proof (induction c arbitrary: c')
  case Nil
  then show ?case by (cases c') auto
next
  case (Cons a c)
  then show ?case by (cases c') auto
qed

lemma createRating_success_invalidates:
  assumes "createRating M ceiling uid yr sem subj cNum clsNum mName v s = (Inr ok, s')"
    and "getClassDocument yr sem subj cNum clsNum (classes (database s)) = Inr classDoc"
  shows "\<exists>t. s' = invalidateRatingsCaches (class_courseId classDoc) t"
  using assms
  by (auto simp: createRating_def Let_def split: if_splits sum.splits prod.splits)

lemma createRatings_success_invalidates:
  assumes "createRatings M REQUIRED_METRICS ceiling uid yr sem subj cNum clsNum metricInputs s
             = (Inr ok, s')"
    and "getClassDocument yr sem subj cNum clsNum (classes (database s)) = Inr classDoc"
  shows "\<exists>t. s' = invalidateRatingsCaches (class_courseId classDoc) t"
  using assms
  by (auto simp: createRatings_def Let_def split: if_splits sum.splits prod.splits)

text \<open>
  Claim C7, as stated, leaves every cache entry of any other course id unchanged. The
  course cache is cleared by key prefix: the invalidation of the course id \<open>1\<close> deletes
  the key \<open>1:2:all\<close>, which is the entry of the course id \<open>1:2\<close> for all metrics.
\<close>

theorem C7_prefix_counterexample:
  "map_of (courseAggregatedRatingsCache
     (invalidateRatingsCaches ''1''
        \<lparr>database = \<lparr>ratings = [], metrics = [], nextId = 0, classes = [], courses = []\<rparr>,
         courseAggregatedRatingsCache = [(''1:2'' @ '':'' @ ''all'', \<lparr>cvalue = 7 :: nat, expiresAt = 1000\<rparr>)],
         semestersWithRatingsCache = ([] :: nat cache),
         instructorAggregatedRatingsCache = ([] :: nat cache),
         sessions = 0, events = []\<rparr>)) (''1:2'' @ '':'' @ ''all'') = None"
  by (simp add: invalidateRatingsCaches_def)

text \<open>
  Claim C7, amended. After the invalidation for a course id, the course cache has no entry
  whose key starts with the course id and a colon, and the two other caches have no entry
  keyed by the course id. Every other entry is unchanged: the entries of the course cache
  whose key does not start with that prefix, and the entries of the two other caches under
  another key. In particular, when neither course id contains a colon, every entry of
  another course id is unchanged. A successful \<open>createRating\<close> ends with this
  invalidation for the course id of the class: afterwards the caches have no entry of it.
\<close>

theorem C7_invalidation_frame:
  "map_of (courseAggregatedRatingsCache (invalidateRatingsCaches crsId s)) key =
     (if prefix (crsId @ '':'') key then None else map_of (courseAggregatedRatingsCache s) key) \<and>
   map_of (semestersWithRatingsCache (invalidateRatingsCaches crsId s)) key' =
     (if key' = crsId then None else map_of (semestersWithRatingsCache s) key') \<and>
   map_of (instructorAggregatedRatingsCache (invalidateRatingsCaches crsId s)) key' =
     (if key' = crsId then None else map_of (instructorAggregatedRatingsCache s) key') \<and>
   (CHR '':'' \<notin> set crsId \<and> CHR '':'' \<notin> set other \<and> other \<noteq> crsId \<longrightarrow>
      map_of (courseAggregatedRatingsCache (invalidateRatingsCaches crsId s))
          (other @ '':'' @ rest) =
        map_of (courseAggregatedRatingsCache s) (other @ '':'' @ rest)) \<and>
   (createRating M ceiling uid yr sem subj cNum clsNum mName v s = (Inr ok, s') \<and>
    getClassDocument yr sem subj cNum clsNum (classes (database s)) = Inr classDoc \<longrightarrow>
      map_of (courseAggregatedRatingsCache s') (class_courseId classDoc @ '':'' @ rest) = None \<and>
      map_of (semestersWithRatingsCache s') (class_courseId classDoc) = None \<and>
      map_of (instructorAggregatedRatingsCache s') (class_courseId classDoc) = None)"
proof -
  have inv: "map_of (courseAggregatedRatingsCache (invalidateRatingsCaches c t)) k =
               (if prefix (c @ '':'') k then None else map_of (courseAggregatedRatingsCache t) k)"
            "map_of (semestersWithRatingsCache (invalidateRatingsCaches c t)) k' =
               (if k' = c then None else map_of (semestersWithRatingsCache t) k')"
            "map_of (instructorAggregatedRatingsCache (invalidateRatingsCaches c t)) k' =
               (if k' = c then None else map_of (instructorAggregatedRatingsCache t) k')"
    for c k k' and t :: "('a, 'b, 'c) state"
    by (simp_all add: invalidateRatingsCaches_def map_of_filter_key delete_conv')
  have frame: "\<not> prefix (crsId @ '':'') (other @ '':'' @ rest)"
    if "CHR '':'' \<notin> set crsId" "CHR '':'' \<notin> set other" "other \<noteq> crsId"
    using prefix_colon_eq[of crsId other rest] that by blast
  have mut: "map_of (courseAggregatedRatingsCache s') (class_courseId classDoc @ '':'' @ rest) = None \<and>
             map_of (semestersWithRatingsCache s') (class_courseId classDoc) = None \<and>
             map_of (instructorAggregatedRatingsCache s') (class_courseId classDoc) = None"
    if "createRating M ceiling uid yr sem subj cNum clsNum mName v s = (Inr ok, s')"
      and "getClassDocument yr sem subj cNum clsNum (classes (database s)) = Inr classDoc"
  proof -
    from createRating_success_invalidates[OF that] obtain t where
      "s' = invalidateRatingsCaches (class_courseId classDoc) t" by blast
    then show ?thesis by (simp add: inv)
  qed
  show ?thesis
    using inv[of crsId s] frame mut by simp
qed

theorem C7_invalidation_frame_witness:
  "CHR '':'' \<notin> set ''c1'' \<and> CHR '':'' \<notin> set ''c2'' \<and> ''c2'' \<noteq> ''c1'' \<and>
   map_of (courseAggregatedRatingsCache
             (invalidateRatingsCaches ''c1''
                ((sampleState ''Usefulness'')
                   \<lparr>courseAggregatedRatingsCache :=
                      [(''c1:all'', \<lparr>cvalue = 10, expiresAt = 120000\<rparr>),
                       (''c2:all'', \<lparr>cvalue = 11, expiresAt = 120000\<rparr>)]\<rparr>))) ''c1:all'' = None \<and>
   map_of (courseAggregatedRatingsCache
             (invalidateRatingsCaches ''c1''
                ((sampleState ''Usefulness'')
                   \<lparr>courseAggregatedRatingsCache :=
                      [(''c1:all'', \<lparr>cvalue = 10, expiresAt = 120000\<rparr>),
                       (''c2:all'', \<lparr>cvalue = 11, expiresAt = 120000\<rparr>)]\<rparr>))) ''c2:all'' =
     Some \<lparr>cvalue = 11, expiresAt = 120000\<rparr> \<and>
   fst (createRating sampleMappings 50 ''u1'' 2023 ''Fall'' ''COMPSCI'' ''61A'' ''001''
          ''Usefulness'' 4 (sampleState ''Usefulness'')) = Inr True \<and>
   map_of (courseAggregatedRatingsCache
             (snd (createRating sampleMappings 50 ''u1'' 2023 ''Fall'' ''COMPSCI'' ''61A'' ''001''
                     ''Usefulness'' 4 (sampleState ''Usefulness'')))) ''c1:all'' = None"
proof -
  let ?s = "(sampleState ''Usefulness'')
              \<lparr>courseAggregatedRatingsCache :=
                 [(''c1:all'', \<lparr>cvalue = 10, expiresAt = 120000\<rparr>),
                  (''c2:all'', \<lparr>cvalue = 11, expiresAt = 120000\<rparr>)]\<rparr>"
  let ?t = "sampleState ''Usefulness'' :: (nat, nat, nat) state"
  let ?r = "createRating sampleMappings 50 ''u1'' 2023 ''Fall'' ''COMPSCI'' ''61A'' ''001''
              ''Usefulness'' 4 ?t"
  have ok: "fst ?r = Inr True"
    by (simp add: sample_defs controller_defs)
  then have r: "?r = (Inr True, snd ?r)"
    by (metis prod.collapse)
  have c: "getClassDocument 2023 ''Fall'' ''COMPSCI'' ''61A'' ''001'' (classes (database ?t)) =
             Inr \<lparr>class_id = 1, class_courseId = ''c1'', class_year = 2023,
                  class_semester = ''Fall'', class_subject = ''COMPSCI'',
                  class_courseNumber = ''61A'', class_number = ''001''\<rparr>"
    by (simp add: sample_defs controller_defs)
  show ?thesis
    using ok r c
      C7_invalidation_frame [where crsId = "''c1''" and s = ?s and key = "''c1:all''"
        and other = "''c2''" and rest = "''all''"]
      C7_invalidation_frame [where s = ?t and M = sampleMappings and ceiling = 50
        and uid = "''u1''" and yr = 2023 and sem = "''Fall''" and subj = "''COMPSCI''"
        and cNum = "''61A''" and clsNum = "''001''" and mName = "''Usefulness''" and v = 4
        and ok = True and s' = "snd ?r" and rest = "''all''"
        and classDoc = "\<lparr>class_id = 1, class_courseId = ''c1'', class_year = 2023,
                  class_semester = ''Fall'', class_subject = ''COMPSCI'',
                  class_courseNumber = ''61A'', class_number = ''001''\<rparr>"]
    by simp
qed

section \<open>Invalidation and the transaction\<close>

text \<open>
  A failed operation leaves the database as it was: its transaction is rolled back. On
  the paths of \<open>createRating\<close> other than the replacement of a rating of another term,
  a failed call also leaves the caches as they were.
\<close>

lemma createRatings_rollback:
  assumes "createRatings M REQUIRED_METRICS ceiling uid yr sem subj cNum clsNum metricInputs s
             = (Inl e, s')"
  shows "database s' = database s"
  using assms
  by (auto simp: createRatings_def Let_def startSession_def
      split: if_splits sum.splits prod.splits dest!: withTransaction_rollback)

lemma deleteRatings_rollback:
  assumes "deleteRatings M uid subj cNum s = (Inl e, s')"
  shows "database s' = database s"
  using assms
  by (auto simp: deleteRatings_def Let_def startSession_def
      split: if_splits sum.splits prod.splits dest!: withTransaction_rollback)

lemma deleteRating_rollback:
  assumes "deleteRating M uid yr sem subj cNum clsNum mName False s = (Inl e, s')"
  shows "database s' = database s"
  using assms
  by (auto simp: deleteRating_def Let_def startSession_def
      split: if_splits sum.splits prod.splits dest!: withTransaction_rollback)

lemma createRating_failure_keeps_caches:
  assumes "createRating M ceiling uid yr sem subj cNum clsNum mName v s = (Inl e, s')"
    and "\<And>existingRating.
           checkRatingExists uid subj cNum mName (ratings (database s)) = Some existingRating \<Longrightarrow>
           semester existingRating = sem \<and> year existingRating = yr \<and>
           classNumber existingRating = clsNum"
  shows "courseAggregatedRatingsCache s' = courseAggregatedRatingsCache s \<and>
         semestersWithRatingsCache s' = semestersWithRatingsCache s \<and>
         instructorAggregatedRatingsCache s' = instructorAggregatedRatingsCache s"
  using assms
  by (auto simp: createRating_def createRatingBody_def withTransaction_def inSession_def
      Let_def startSession_def split: if_splits sum.splits prod.splits option.splits)

text \<open>
  Claim C8 asks that the caches are invalidated only after the transaction of the write
  has committed, so that no cache entry is deleted when a step of the transaction fails.
  On the path that replaces a rating of another term, \<open>createRating\<close> calls
  \<open>deleteRating\<close> with its own session, and \<open>deleteRating\<close> invalidates the caches
  before it returns, inside the transaction of the caller. First part: a user with a
  rating in the Fall offering submits one for the Spring offering, and the caches of the
  course are invalidated before the commit (and once more after it). Second part: the
  same call for a metric without a declared domain and without a counter row; the step
  after the deletion is rejected, the error is thrown and the database is rolled back,
  yet the three cache entries of the course are gone.
\<close>

theorem C8_invalidation_before_commit:
  "events (snd (createRating sampleMappings 50 ''u1'' 2024 ''Spring'' ''COMPSCI'' ''61A'' ''001''
                  ''Usefulness'' 5 (sampleState ''Usefulness''))) =
     [Invalidated ''c1'', Committed, Invalidated ''c1''] \<and>
   createRating sampleMappings 50 ''u1'' 2024 ''Spring'' ''COMPSCI'' ''61A'' ''001'' ''Legacy'' 4
     (sampleState ''Legacy'') =
   (Inl InvalidArgument,
    \<lparr>database = sampleDatabase ''Legacy'',
     courseAggregatedRatingsCache = [],
     semestersWithRatingsCache = [],
     instructorAggregatedRatingsCache = [],
     sessions = 1,
     events = [Invalidated ''c1'', Aborted]\<rparr>)"
  by (simp add: sample_defs controller_defs)

end
